theory Spec2Isabelle
  imports Complex_Main "HOL-Library.AList"
begin

section \<open>Numbers, rectangles and the measured grid\<close>

text \<open>
  The plugin computes with JavaScript numbers. They are modelled by \<^typ>\<open>real\<close>:
  arithmetic is exact, and the values \<open>NaN\<close> and \<open>\<plusminus>Infinity\<close> do not exist, so
  a theorem that states the value of a quotient carries the hypothesis that the divisor
  is not zero.
  \<open>Math.round\<close> rounds to the nearest integer with ties going up, which is
  \<^term>\<open>round\<close> on the reals (\<open>round x = \<lfloor>x + 1/2\<rfloor>\<close>). A style length written as
  \<open>n + "px"\<close> and read back with \<open>parseFloat\<close> is the number \<open>n\<close>.
  The only use of \<open>Infinity\<close> in the source, the initial \<open>bestDist\<close>, is the value
  \<open>None\<close> of an option.
\<close>

record rect =
  rect_left :: real
  rect_top :: real
  rect_width :: real
  rect_height :: real

text \<open>
  \<open>_buildGrid\<close> creates one cell element for every \<open>row\<close> in \<open>0..12\<close> and every
  \<open>col\<close> in \<open>0..5\<close> and stores it in \<open>cellEls\<close> under the key \<open>row-col\<close>. What the
  browser answers to \<open>getBoundingClientRect\<close> is a parameter: \<open>gridRect\<close> for the
  grid container and \<open>cellBox row col\<close> for a cell.
\<close>

record layout =
  gridRect :: rect
  cellBox :: "int \<Rightarrow> int \<Rightarrow> rect"

definition getCellRect :: "layout \<Rightarrow> int \<Rightarrow> int \<Rightarrow> rect option" where
  "getCellRect L row c =
     (if 0 \<le> row \<and> row < 13 \<and> 0 \<le> c \<and> c < 6 then Some (cellBox L row c) else None)"

definition getGridRect :: "layout \<Rightarrow> rect" where
  "getGridRect L = gridRect L"

definition getRowHeight :: "layout \<Rightarrow> real" where
  "getRowHeight L = (case getCellRect L 1 1 of None \<Rightarrow> 0 | Some r \<Rightarrow> rect_height r)"

definition getColWidth :: "layout \<Rightarrow> real" where
  "getColWidth L = (case getCellRect L 0 1 of None \<Rightarrow> 0 | Some r \<Rightarrow> rect_width r)"

section \<open>Cards, elements and the state of the view\<close>

record card =
  card_id :: string
  col :: int
  topRowFrac :: real
  heightFrac :: real
  card_text :: string
  color :: string

definition CARD_COLORS :: "string list" where
  "CARD_COLORS =
     [''#a8d8ea'', ''#b8e0d2'', ''#ffd6a5'', ''#ffadad'',
      ''#caffbf'', ''#e0bbff'', ''#fdffb6'', ''#cfcfcf'']"

text \<open>
  A card element of the grid: its \<open>data-id\<close>, the four lengths of its inline style
  (relative to the grid), whether its text child is editable, and what the closures
  of its event handlers captured when \<open>_renderCard\<close> built it: the card object and
  the row height measured then. CSS classes are not modelled.
\<close>

record element =
  dataId :: string
  style :: rect
  contentEditable :: bool
  cardRef :: nat
  capRowHeight :: real

text \<open>
  Card objects are shared between \<open>this.cards\<close> and the handlers of the rendered
  elements, and they are mutated in place, so objects live in a store: \<open>heap\<close> maps
  an object reference to the object's fields and \<open>nextObj\<close> is the next unused
  reference. \<open>cards\<close> is the object \<open>this.cards\<close>: an association list from keys to
  references, in insertion order, which is the order of \<open>Object.values\<close> for keys that
  are not array indices. Elements live in a store of their own; \<open>gridCards\<close>
  lists the card elements attached to the grid. \<open>savedData\<close> is the mapping last
  handed to \<open>saveData\<close>.
\<close>

record view =
  heap :: "nat \<Rightarrow> card"
  nextObj :: nat
  cards :: "(string \<times> nat) list"
  activeCardId :: "string option"
  elems :: "nat \<Rightarrow> element"
  nextEl :: nat
  gridCards :: "nat list"
  savedData :: "(string \<times> card) list"

definition lookupCard :: "view \<Rightarrow> string \<Rightarrow> card option" where
  "lookupCard s k = map_option (heap s) (map_of (cards s) k)"

text \<open>A string or \<open>null\<close> in a condition: \<open>null\<close> and the empty string are falsy.\<close>

definition truthy :: "string option \<Rightarrow> bool" where
  "truthy a = (case a of None \<Rightarrow> False | Some x \<Rightarrow> x \<noteq> [])"

definition saveCards :: "view \<Rightarrow> view" where
  "saveCards s = s\<lparr>savedData := map (\<lambda>(k, r). (k, heap s r)) (cards s)\<rparr>"

section \<open>Rendering\<close>

text \<open>The geometry of \<open>_renderCard\<close>; \<open>None\<close> is one of its two early returns.\<close>

definition renderCardRect :: "layout \<Rightarrow> card \<Rightarrow> rect option" where
  "renderCardRect L c =
     (let gridRect = getGridRect L;
          colWidth = getColWidth L;
          rowHeight = getRowHeight L
      in if colWidth = 0 \<or> rowHeight = 0 then None
         else case getCellRect L 1 (col c) of
           None \<Rightarrow> None
         | Some cellRect \<Rightarrow>
             let cardWidth = colWidth * 0.90;
                 hMargin = (colWidth - cardWidth) / 2;
                 vMargin = rowHeight * 0.10;
                 totalSlotPx = max (heightFrac c) 0.5 * rowHeight;
                 cardHeight = max (totalSlotPx - vMargin * 2) (rowHeight * 0.3);
                 slotTopPx = (rect_top cellRect - rect_top gridRect) + topRowFrac c * rowHeight;
                 cardTopPx = slotTopPx + vMargin
             in Some \<lparr>rect_left = rect_left cellRect - rect_left gridRect + hMargin,
                      rect_top = cardTopPx,
                      rect_width = cardWidth,
                      rect_height = cardHeight\<rparr>)"

text \<open>\<open>_renderCard\<close> for the card object \<open>r\<close>: the new element is appended to the grid.\<close>

definition renderCard :: "layout \<Rightarrow> nat \<Rightarrow> view \<Rightarrow> view" where
  "renderCard L r s =
     (case renderCardRect L (heap s r) of
        None \<Rightarrow> s
      | Some box \<Rightarrow>
          s\<lparr>elems := (elems s)(nextEl s :=
                \<lparr>dataId = card_id (heap s r), style = box, contentEditable = False,
                 cardRef = r, capRowHeight = getRowHeight L\<rparr>),
            nextEl := Suc (nextEl s),
            gridCards := gridCards s @ [nextEl s]\<rparr>)"

fun renderEach :: "layout \<Rightarrow> nat list \<Rightarrow> view \<Rightarrow> view" where
  "renderEach L [] s = s"
| "renderEach L (r # rs) s = renderEach L rs (renderCard L r s)"

definition renderAllCards :: "layout \<Rightarrow> view \<Rightarrow> view" where
  "renderAllCards L s = renderEach L (map snd (cards s)) (s\<lparr>gridCards := []\<rparr>)"

section \<open>Snapping a dragged card to the grid\<close>

definition lessThanBest :: "real \<Rightarrow> real option \<Rightarrow> bool" where
  "lessThanBest d best = (case best of None \<Rightarrow> True | Some b \<Rightarrow> d < b)"

text \<open>The loop over the day columns; the pair is \<open>(bestCol, bestDist)\<close>.\<close>

fun snapLoop :: "layout \<Rightarrow> real \<Rightarrow> int list \<Rightarrow> int \<times> real option \<Rightarrow> int \<times> real option" where
  "snapLoop L center [] best = best"
| "snapLoop L center (c # cs) best =
     (case getCellRect L 1 c of
        None \<Rightarrow> snapLoop L center cs best
      | Some cellRect \<Rightarrow>
          let dist = \<bar>rect_left cellRect + rect_width cellRect / 2 - center\<bar>
          in if lessThanBest dist (snd best) then snapLoop L center cs (c, Some dist)
             else snapLoop L center cs best)"

definition snapCardToGrid :: "layout \<Rightarrow> string \<Rightarrow> nat \<Rightarrow> view \<Rightarrow> view" where
  "snapCardToGrid L cardId e s =
     (case map_of (cards s) cardId of
        None \<Rightarrow> s
      | Some r \<Rightarrow>
          let gridRect = getGridRect L;
              rowHeight = getRowHeight L;
              el = style (elems s e);
              elLeft = rect_left el + rect_left gridRect;
              elTop = rect_top el + rect_top gridRect;
              bestCol = fst (snapLoop L (elLeft + rect_width el / 2) [1, 2, 3, 4, 5] (1, None))
          in (case getCellRect L 1 bestCol of
                None \<Rightarrow> s
              | Some row1Rect \<Rightarrow>
                  let rowsFromTop = (elTop - rect_top row1Rect) / rowHeight;
                      snapped = real_of_int (round (rowsFromTop * 2)) / 2;
                      clampedTop = max 0 (min 11.5 snapped)
                  in renderAllCards L (saveCards
                       (s\<lparr>heap := (heap s)(r := (heap s r)\<lparr>col := bestCol, topRowFrac := clampedTop\<rparr>)\<rparr>))))"

section \<open>Pointer gestures on a card\<close>

text \<open>
  A press on a card starts a gesture unless it hits the resize handle or is not the
  primary button. The gesture keeps the pointer's start position, the element's
  position at the press, and the flag \<open>moved\<close>.
\<close>

datatype target = Handle | Body

record drag =
  startX :: real
  startY :: real
  origTop :: real
  origLeft :: real
  moved :: bool

definition card_mousedown :: "target \<Rightarrow> int \<Rightarrow> real \<Rightarrow> real \<Rightarrow> nat \<Rightarrow> view \<Rightarrow> drag option" where
  "card_mousedown tgt button clientX clientY e s =
     (if tgt = Handle then None
      else if button \<noteq> 0 then None
      else Some \<lparr>startX = clientX, startY = clientY,
                 origTop = rect_top (style (elems s e)),
                 origLeft = rect_left (style (elems s e)),
                 moved = False\<rparr>)"

definition card_onMove :: "real \<Rightarrow> real \<Rightarrow> nat \<Rightarrow> drag \<times> view \<Rightarrow> drag \<times> view" where
  "card_onMove clientX clientY e gs =
     (let g = fst gs; s = snd gs;
          dx = clientX - startX g;
          dy = clientY - startY g;
          g' = (if \<bar>dx\<bar> > 3 \<or> \<bar>dy\<bar> > 3 then g\<lparr>moved := True\<rparr> else g)
      in if \<not> moved g' then (g', s)
         else (g', s\<lparr>elems := (elems s)(e := (elems s e)\<lparr>style :=
                 (style (elems s e))\<lparr>rect_top := origTop g + dy, rect_left := origLeft g + dx\<rparr>\<rparr>)\<rparr>))"

text \<open>
  \<open>_editCard\<close>: the first card element of the grid with the given \<open>data-id\<close> becomes
  editable; focus and text selection are not modelled. \<open>editDone\<close> is the \<open>blur\<close>
  handler it installs on element \<open>e\<close>, with the text the element holds then.
\<close>

definition editCard :: "string \<Rightarrow> view \<Rightarrow> view" where
  "editCard cardId s =
     (case find (\<lambda>e. dataId (elems s e) = cardId) (gridCards s) of
        None \<Rightarrow> s
      | Some e \<Rightarrow> s\<lparr>elems := (elems s)(e := (elems s e)\<lparr>contentEditable := True\<rparr>)\<rparr>)"

definition editDone :: "string \<Rightarrow> nat \<Rightarrow> string \<Rightarrow> view \<Rightarrow> view" where
  "editDone cardId e textContent s =
     (let s1 = s\<lparr>elems := (elems s)(e := (elems s e)\<lparr>contentEditable := False\<rparr>)\<rparr>
      in case map_of (cards s1) cardId of
           None \<Rightarrow> s1
         | Some r \<Rightarrow> saveCards (s1\<lparr>heap := (heap s1)(r := (heap s1 r)\<lparr>card_text := textContent\<rparr>)\<rparr>))"

definition card_onUp :: "layout \<Rightarrow> nat \<Rightarrow> drag \<Rightarrow> view \<Rightarrow> view" where
  "card_onUp L e g s =
     (let c = heap s (cardRef (elems s e))
      in if moved g then snapCardToGrid L (card_id c) e s
         else editCard (card_id c) (s\<lparr>activeCardId := Some (card_id c)\<rparr>))"

text \<open>A whole gesture: the press, the pointer positions reported while it is held, the release.\<close>

fun card_moves :: "(real \<times> real) list \<Rightarrow> nat \<Rightarrow> drag \<times> view \<Rightarrow> drag \<times> view" where
  "card_moves [] e gs = gs"
| "card_moves (p # ps) e gs = card_moves ps e (card_onMove (fst p) (snd p) e gs)"

definition card_gesture :: "layout \<Rightarrow> real \<times> real \<Rightarrow> (real \<times> real) list \<Rightarrow> nat \<Rightarrow> view \<Rightarrow> view" where
  "card_gesture L start ps e s =
     (case card_mousedown Body 0 (fst start) (snd start) e s of
        None \<Rightarrow> s
      | Some g \<Rightarrow> (let gs = card_moves ps e (g, s) in card_onUp L e (fst gs) (snd gs)))"

section \<open>Resizing a card by its handle\<close>

record resize =
  startY_r :: real
  origHeight :: real

definition handle_mousedown :: "real \<Rightarrow> nat \<Rightarrow> view \<Rightarrow> resize" where
  "handle_mousedown clientY e s =
     \<lparr>startY_r = clientY, origHeight = rect_height (style (elems s e))\<rparr>"

definition handle_onMove :: "real \<Rightarrow> nat \<Rightarrow> resize \<Rightarrow> view \<Rightarrow> view" where
  "handle_onMove clientY e g s =
     (let rowHeight = capRowHeight (elems s e);
          newH = max (rowHeight * 0.5) (origHeight g + (clientY - startY_r g))
      in s\<lparr>elems := (elems s)(e := (elems s e)\<lparr>style := (style (elems s e))\<lparr>rect_height := newH\<rparr>\<rparr>)\<rparr>)"

text \<open>
  The release writes to the card object its closure holds, whether or not that object
  is still reachable from \<open>this.cards\<close>, and saves; it does not render.
\<close>

definition handle_onUp :: "nat \<Rightarrow> view \<Rightarrow> view" where
  "handle_onUp e s =
     (let rowHeight = capRowHeight (elems s e);
          r = cardRef (elems s e);
          snapped = real_of_int (round ((rect_height (style (elems s e)) / rowHeight) * 2)) / 2;
          newFrac = max 0.5 snapped;
          s1 = s\<lparr>heap := (heap s)(r := (heap s r)\<lparr>heightFrac := newFrac\<rparr>)\<rparr>;
          s2 = s1\<lparr>elems := (elems s1)(e := (elems s1 e)\<lparr>style :=
                 (style (elems s1 e))\<lparr>rect_height := newFrac * rowHeight\<rparr>\<rparr>)\<rparr>
      in saveCards s2)"

fun handle_moves :: "real list \<Rightarrow> nat \<Rightarrow> resize \<Rightarrow> view \<Rightarrow> view" where
  "handle_moves [] e g s = s"
| "handle_moves (y # ys) e g s = handle_moves ys e g (handle_onMove y e g s)"

definition handle_gesture :: "real \<Rightarrow> real list \<Rightarrow> nat \<Rightarrow> view \<Rightarrow> view" where
  "handle_gesture y0 ys e s = handle_onUp e (handle_moves ys e (handle_mousedown y0 e s) s)"

section \<open>Card operations\<close>

text \<open>
  \<open>uid()\<close> reads the clock and a random number; its result is the parameter \<open>newId\<close>
  of the two operations that call it. The deferred \<open>_editCard\<close> that \<open>_createCard\<close>
  schedules runs later, as an event of its own.
\<close>

definition createCard :: "layout \<Rightarrow> string \<Rightarrow> int \<Rightarrow> int \<Rightarrow> view \<Rightarrow> view" where
  "createCard L newId row c s =
     (let topRowFrac = real_of_int row - 1;
          card = \<lparr>card_id = newId, col = c, topRowFrac = topRowFrac, heightFrac = 1,
                  card_text = ''Neue Karte'', color = CARD_COLORS ! 0\<rparr>;
          s1 = s\<lparr>heap := (heap s)(nextObj s := card), nextObj := Suc (nextObj s),
                 cards := AList.update newId (nextObj s) (cards s)\<rparr>;
          s2 = s1\<lparr>activeCardId := Some newId\<rparr>
      in renderAllCards L (saveCards s2))"

definition deleteCard :: "layout \<Rightarrow> string \<Rightarrow> view \<Rightarrow> view" where
  "deleteCard L cardId s =
     (let s1 = s\<lparr>cards := AList.delete cardId (cards s)\<rparr>;
          s2 = (if activeCardId s1 = Some cardId then s1\<lparr>activeCardId := None\<rparr> else s1)
      in renderAllCards L (saveCards s2))"

definition setCardColor :: "layout \<Rightarrow> string \<Rightarrow> string \<Rightarrow> view \<Rightarrow> view" where
  "setCardColor L cardId c s =
     (case map_of (cards s) cardId of
        None \<Rightarrow> s
      | Some r \<Rightarrow> renderAllCards L (saveCards (s\<lparr>heap := (heap s)(r := (heap s r)\<lparr>color := c\<rparr>)\<rparr>)))"

definition copyActiveCard :: "layout \<Rightarrow> string \<Rightarrow> view \<Rightarrow> view" where
  "copyActiveCard L newId s =
     (case activeCardId s of
        None \<Rightarrow> s
      | Some a \<Rightarrow>
          if \<not> truthy (Some a) then s
          else (case map_of (cards s) a of
             None \<Rightarrow> s
           | Some r \<Rightarrow>
               let orig = heap s r;
                   newCard = orig\<lparr>card_id := newId,
                                  topRowFrac := topRowFrac orig + heightFrac orig + 0.5\<rparr>;
                   s1 = s\<lparr>heap := (heap s)(nextObj s := newCard), nextObj := Suc (nextObj s),
                          cards := AList.update newId (nextObj s) (cards s)\<rparr>;
                   s2 = s1\<lparr>activeCardId := Some newId\<rparr>
               in renderAllCards L (saveCards s2)))"

record keyEvent =
  key :: string
  ctrlKey :: bool
  metaKey :: bool

definition onKeydown :: "layout \<Rightarrow> string \<Rightarrow> bool \<Rightarrow> keyEvent \<Rightarrow> view \<Rightarrow> view" where
  "onKeydown L newId isConnected ev s =
     (if \<not> isConnected then s
      else
        let s1 = (case activeCardId s of
                    None \<Rightarrow> s
                  | Some a \<Rightarrow> if key ev = ''Delete'' \<and> truthy (Some a) then deleteCard L a s else s)
        in if (ctrlKey ev \<or> metaKey ev) \<and> key ev = ''c'' \<and> truthy (activeCardId s1)
           then copyActiveCard L newId s1 else s1)"

section \<open>Notions used in the statements\<close>

text \<open>
  A store is well formed when every entry of \<open>this.cards\<close> points to an allocated
  object whose \<open>id\<close> field is the key it is stored under. \<open>_createCard\<close> and
  \<open>_copyActiveCard\<close> store every object they allocate in this way, and no operation
  writes an \<open>id\<close> field afterwards.
\<close>

definition wellFormed :: "view \<Rightarrow> bool" where
  "wellFormed s = list_all (\<lambda>(k, r). r < nextObj s \<and> card_id (heap s r) = k) (cards s)"

text \<open>
  The quantities of \<open>_snapCardToGrid\<close>, named: the horizontal centre of the dragged
  element in viewport coordinates, the distance from it to the centre of a day
  column's cell in row 1, the column the loop returns, the offset of the element's
  top from the top of row 1 in rows, and rounding to a multiple of one half.
\<close>

definition elCenterX :: "layout \<Rightarrow> rect \<Rightarrow> real" where
  "elCenterX L el = rect_left el + rect_left (getGridRect L) + rect_width el / 2"

definition colDist :: "layout \<Rightarrow> real \<Rightarrow> int \<Rightarrow> real" where
  "colDist L center c = \<bar>rect_left (cellBox L 1 c) + rect_width (cellBox L 1 c) / 2 - center\<bar>"

definition bestColumn :: "layout \<Rightarrow> real \<Rightarrow> int" where
  "bestColumn L x = fst (snapLoop L x [1, 2, 3, 4, 5] (1, None))"

definition rowsFromTop :: "layout \<Rightarrow> rect \<Rightarrow> int \<Rightarrow> real" where
  "rowsFromTop L el c =
     (rect_top el + rect_top (getGridRect L) - rect_top (cellBox L 1 c)) / getRowHeight L"

definition snapHalf :: "real \<Rightarrow> real" where
  "snapHalf x = real_of_int (round (x * 2)) / 2"

text \<open>
  What \<open>_renderCard\<close> establishes for the element \<open>e\<close> it builds, and what holds for
  every attached element right after \<open>_renderAllCards\<close>: its style is the rectangle
  computed from the card object its handlers hold, under the measurements of \<open>L\<close>.
\<close>

definition renderedFrom :: "layout \<Rightarrow> view \<Rightarrow> nat \<Rightarrow> bool" where
  "renderedFrom L s e =
     (e < nextEl s \<and>
      renderCardRect L (heap s (cardRef (elems s e))) = Some (style (elems s e)) \<and>
      dataId (elems s e) = card_id (heap s (cardRef (elems s e))) \<and>
      capRowHeight (elems s e) = getRowHeight L \<and> getRowHeight L \<noteq> 0)"


definition heightOk :: "view \<Rightarrow> bool" where
  "heightOk s = list_all (\<lambda>(k, r). 0.5 \<le> heightFrac (heap s r)) (cards s)"

text \<open>
  For the move gesture: a pointer position \<open>p\<close> is far from the press position when it
  exceeds the handler's threshold; \<open>dragTo g p e\<close> is the write of \<open>onMove\<close> to the style of
  element \<open>e\<close>; \<open>movedTo start p e\<close> is the element displaced by \<open>p - start\<close>.
\<close>

definition farFrom :: "real \<times> real \<Rightarrow> real \<times> real \<Rightarrow> bool" where
  "farFrom start p = (\<bar>fst p - fst start\<bar> > 3 \<or> \<bar>snd p - snd start\<bar> > 3)"

definition dragTo :: "drag \<Rightarrow> real \<times> real \<Rightarrow> nat \<Rightarrow> view \<Rightarrow> view" where
  "dragTo g p e s =
     s\<lparr>elems := (elems s)(e := (elems s e)\<lparr>style :=
          (style (elems s e))\<lparr>rect_top := origTop g + (snd p - startY g),
                               rect_left := origLeft g + (fst p - startX g)\<rparr>\<rparr>)\<rparr>"

definition movedTo :: "real \<times> real \<Rightarrow> real \<times> real \<Rightarrow> nat \<Rightarrow> view \<Rightarrow> view" where
  "movedTo start p e s =
     s\<lparr>elems := (elems s)(e := (elems s e)\<lparr>style :=
          (style (elems s e))\<lparr>rect_top := rect_top (style (elems s e)) + (snd p - snd start),
                               rect_left := rect_left (style (elems s e)) + (fst p - fst start)\<rparr>\<rparr>)\<rparr>"

text \<open>
  A grid whose day columns are as wide as the measured column width and lie side by
  side from left to right, with rows of non-zero height; and a card that holds snapped
  coordinates: a day column, and a top offset in [0, 11.5] that is a multiple of 0.5.
\<close>

definition evenColumns :: "layout \<Rightarrow> bool" where
  "evenColumns L =
     (getColWidth L \<noteq> 0 \<and> getRowHeight L \<noteq> 0 \<and>
      list_all (\<lambda>c. rect_width (cellBox L 1 c) = getColWidth L) [1, 2, 3, 4, 5] \<and>
      sorted_wrt (<) (map (\<lambda>c. rect_left (cellBox L 1 c)) [1, 2, 3, 4, 5]))"

definition onGrid :: "card \<Rightarrow> bool" where
  "onGrid c =
     (1 \<le> col c \<and> col c \<le> 5 \<and> 0 \<le> topRowFrac c \<and> topRowFrac c \<le> 11.5 \<and>
      real_of_int \<lfloor>topRowFrac c * 2\<rfloor> = topRowFrac c * 2)"

section \<open>An example grid and example views\<close>

text \<open>
  A grid whose container sits at (10, 20): a time column 80 pixels wide, five day
  columns of 100 pixels, thirteen rows of 40 pixels.
\<close>

definition weekGrid :: layout where
  "weekGrid =
     \<lparr>gridRect = \<lparr>rect_left = 10, rect_top = 20, rect_width = 580, rect_height = 520\<rparr>,
      cellBox = (\<lambda>row c.
        \<lparr>rect_left = (if c = 0 then 10 else 90 + 100 * (real_of_int c - 1)),
         rect_top = 20 + 40 * real_of_int row,
         rect_width = (if c = 0 then 80 else 100),
         rect_height = 40\<rparr>)\<rparr>"

definition mathCard :: card where
  "mathCard = \<lparr>card_id = ''k1'', col = 2, topRowFrac = 2, heightFrac = 1,
               card_text = ''Mathe'', color = ''#a8d8ea''\<rparr>"

text \<open>The active card \<open>k1\<close> with its element dragged far below the grid, over column 4.\<close>

definition droppedView :: view where
  "droppedView =
     \<lparr>heap = (\<lambda>_. mathCard), nextObj = 1, cards = [(''k1'', 0)], activeCardId = Some ''k1'',
      elems = (\<lambda>_. \<lparr>dataId = ''k1'',
                      style = \<lparr>rect_left = 390, rect_top = 528, rect_width = 90, rect_height = 32\<rparr>,
                      contentEditable = False, cardRef = 0, capRowHeight = 40\<rparr>),
      nextEl = 1, gridCards = [0], savedData = []\<rparr>"

text \<open>
  The view as the constructor leaves it when no data was saved, the view after a card
  was created in row 3 of column 2, and the view after a second card was created in
  row 5 of column 4.
\<close>

definition noCard :: card where
  "noCard = \<lparr>card_id = [], col = 0, topRowFrac = 0, heightFrac = 0, card_text = [], color = []\<rparr>"

definition noElement :: element where
  "noElement = \<lparr>dataId = [], style = \<lparr>rect_left = 0, rect_top = 0, rect_width = 0, rect_height = 0\<rparr>,
                 contentEditable = False, cardRef = 0, capRowHeight = 0\<rparr>"

definition emptyView :: view where
  "emptyView = \<lparr>heap = (\<lambda>_. noCard), nextObj = 0, cards = [], activeCardId = None,
                 elems = (\<lambda>_. noElement), nextEl = 0, gridCards = [], savedData = []\<rparr>"

definition shownView :: view where
  "shownView = createCard weekGrid ''k1'' 3 2 emptyView"

definition twoCardView :: view where
  "twoCardView = createCard weekGrid ''k2'' 5 4 shownView"

text \<open>
  The view after the resize handle of card \<open>k1\<close> was pressed at height 156, dragged
  down by 24 pixels (0.6 rows) and released.
\<close>

definition resizedView :: view where
  "resizedView = handle_gesture 156 [180] 0 shownView"

text \<open>Ctrl+C.\<close>

definition ctrlC :: keyEvent where
  "ctrlC = \<lparr>key = ''c'', ctrlKey = True, metaKey = False\<rparr>"


text \<open>
  The view of two cards while the resize handle of card \<open>k1\<close>, pressed at height 156,
  is held 24 pixels (0.6 rows) further down.
\<close>

definition heldHandleView :: view where
  "heldHandleView =
     handle_moves [180] (Suc 0) (handle_mousedown 156 (Suc 0) twoCardView) twoCardView"

section \<open>Basic facts\<close>

lemma renderCard_frame:
  "heap (renderCard L r s) = heap s" "cards (renderCard L r s) = cards s"
  "activeCardId (renderCard L r s) = activeCardId s" "nextObj (renderCard L r s) = nextObj s"
  "savedData (renderCard L r s) = savedData s"
  by (simp_all add: renderCard_def split: option.splits)

lemma renderEach_frame:
  "heap (renderEach L rs s) = heap s \<and> cards (renderEach L rs s) = cards s \<and>
   activeCardId (renderEach L rs s) = activeCardId s \<and> nextObj (renderEach L rs s) = nextObj s \<and>
   savedData (renderEach L rs s) = savedData s"
  by (induction rs arbitrary: s) (simp_all add: renderCard_frame)

lemma renderAllCards_frame [simp]:
  "heap (renderAllCards L s) = heap s" "cards (renderAllCards L s) = cards s"
  "activeCardId (renderAllCards L s) = activeCardId s" "nextObj (renderAllCards L s) = nextObj s"
  "savedData (renderAllCards L s) = savedData s"
  by (simp_all add: renderAllCards_def renderEach_frame)

lemma saveCards_frame [simp]:
  "heap (saveCards s) = heap s" "cards (saveCards s) = cards s"
  "activeCardId (saveCards s) = activeCardId s" "nextObj (saveCards s) = nextObj s"
  "elems (saveCards s) = elems s" "gridCards (saveCards s) = gridCards s"
  "nextEl (saveCards s) = nextEl s"
  by (simp_all add: saveCards_def)

lemma lookupCard_render [simp]:
  "lookupCard (renderAllCards L s) k = lookupCard s k" "lookupCard (saveCards s) k = lookupCard s k"
  by (simp_all add: lookupCard_def)

lemma getCellRect_day: "1 \<le> c \<Longrightarrow> c \<le> 5 \<Longrightarrow> getCellRect L 1 c = Some (cellBox L 1 c)"
  by (simp add: getCellRect_def)

lemma day_cols: "(c::int) \<in> {1..5} \<longleftrightarrow> c = 1 \<or> c = 2 \<or> c = 3 \<or> c = 4 \<or> c = 5"
  by (simp only: atLeastAtMost_iff) arith

lemma ball_day: "(\<forall>c\<in>{1..5::int}. P c) \<longleftrightarrow> P 1 \<and> P 2 \<and> P 3 \<and> P 4 \<and> P 5"
  by (auto simp only: day_cols)

lemma weekGrid_simps [simp]:
  "gridRect weekGrid = \<lparr>rect_left = 10, rect_top = 20, rect_width = 580, rect_height = 520\<rparr>"
  "cellBox weekGrid row c =
     \<lparr>rect_left = (if c = 0 then 10 else 90 + 100 * (real_of_int c - 1)),
      rect_top = 20 + 40 * real_of_int row,
      rect_width = (if c = 0 then 80 else 100),
      rect_height = 40\<rparr>"
  by (simp_all add: weekGrid_def)

lemma weekGrid_measures [simp]:
  "getRowHeight weekGrid = 40" "getColWidth weekGrid = 100"
  "getGridRect weekGrid = \<lparr>rect_left = 10, rect_top = 20, rect_width = 580, rect_height = 520\<rparr>"
  by (simp_all add: getRowHeight_def getColWidth_def getGridRect_def getCellRect_def)

section \<open>The column loop returns the first closest column\<close>

lemma snapLoop_step:
  assumes "1 \<le> c" and "c \<le> 5"
  shows "snapLoop L x (c # cs) (before, Some d0) =
           (if colDist L x c < d0 then snapLoop L x cs (c, Some (colDist L x c))
            else snapLoop L x cs (before, Some d0))"
  using assms by (simp add: getCellRect_day lessThanBest_def colDist_def)

lemma snapLoop_first:
  "snapLoop L x (1 # cs) (before, None) = snapLoop L x cs (1, Some (colDist L x 1))"
  by (simp add: getCellRect_day lessThanBest_def colDist_def)

lemma snapLoop_min:
  assumes "sorted cs" and "\<forall>c\<in>set cs. 1 \<le> c \<and> c \<le> 5"
  shows "\<exists>b. snd (snapLoop L x cs (before, Some d0)) = Some b \<and> b \<le> d0 \<and>
           (\<forall>c\<in>set cs. b \<le> colDist L x c) \<and>
           ((fst (snapLoop L x cs (before, Some d0)) = before \<and> b = d0) \<or>
            (fst (snapLoop L x cs (before, Some d0)) \<in> set cs \<and>
             b = colDist L x (fst (snapLoop L x cs (before, Some d0))) \<and> b < d0)) \<and>
           (\<forall>c\<in>set cs. colDist L x c = b \<longrightarrow>
              fst (snapLoop L x cs (before, Some d0)) = before \<or> fst (snapLoop L x cs (before, Some d0)) \<le> c)"
  using assms
proof (induction cs arbitrary: before d0)
  case Nil
  then show ?case by simp
next
  case (Cons c1 cs)
  have rng: "1 \<le> c1" "c1 \<le> 5" using Cons.prems by simp_all
  have srt: "sorted cs" and bnd: "\<forall>c\<in>set cs. 1 \<le> c \<and> c \<le> 5" and le: "\<forall>c\<in>set cs. c1 \<le> c"
    using Cons.prems by simp_all
  show ?case
  proof (cases "colDist L x c1 < d0")
    case True
    let ?R = "snapLoop L x cs (c1, Some (colDist L x c1))"
    have eq: "snapLoop L x (c1 # cs) (before, Some d0) = ?R"
      using True by (subst snapLoop_step[OF rng]) simp
    from Cons.IH[OF srt bnd, of c1 "colDist L x c1"] obtain b where
      b: "snd ?R = Some b" "b \<le> colDist L x c1" "\<forall>c\<in>set cs. b \<le> colDist L x c"
         "(fst ?R = c1 \<and> b = colDist L x c1) \<or> (fst ?R \<in> set cs \<and> b = colDist L x (fst ?R) \<and> b < colDist L x c1)"
         "\<forall>c\<in>set cs. colDist L x c = b \<longrightarrow> fst ?R = c1 \<or> fst ?R \<le> c"
      by blast
    have "fst ?R \<in> set (c1 # cs) \<and> b = colDist L x (fst ?R) \<and> b < d0"
      using b(4) True by auto
    moreover have "\<forall>c\<in>set (c1 # cs). colDist L x c = b \<longrightarrow> fst ?R = before \<or> fst ?R \<le> c"
      using b(4,5) le by force
    moreover have "\<forall>c\<in>set (c1 # cs). b \<le> colDist L x c" using b(2,3) by simp
    moreover have "b \<le> d0" using b(2) True by simp
    ultimately show ?thesis unfolding eq using b(1) by blast
  next
    case False
    let ?R = "snapLoop L x cs (before, Some d0)"
    have eq: "snapLoop L x (c1 # cs) (before, Some d0) = ?R"
      using False by (subst snapLoop_step[OF rng]) simp
    from Cons.IH[OF srt bnd, of before d0] obtain b where
      b: "snd ?R = Some b" "b \<le> d0" "\<forall>c\<in>set cs. b \<le> colDist L x c"
         "(fst ?R = before \<and> b = d0) \<or> (fst ?R \<in> set cs \<and> b = colDist L x (fst ?R) \<and> b < d0)"
         "\<forall>c\<in>set cs. colDist L x c = b \<longrightarrow> fst ?R = before \<or> fst ?R \<le> c"
      by blast
    have "(fst ?R = before \<and> b = d0) \<or> (fst ?R \<in> set (c1 # cs) \<and> b = colDist L x (fst ?R) \<and> b < d0)"
      using b(4) by auto
    moreover have "\<forall>c\<in>set (c1 # cs). colDist L x c = b \<longrightarrow> fst ?R = before \<or> fst ?R \<le> c"
      using b(2,4,5) False by auto
    moreover have "\<forall>c\<in>set (c1 # cs). b \<le> colDist L x c" using b(2,3) False by simp
    ultimately show ?thesis unfolding eq using b(1,2) by blast
  qed
qed

lemma bestColumn_closest:
  "1 \<le> bestColumn L x \<and> bestColumn L x \<le> 5 \<and>
   (\<forall>c\<in>{1..5}. colDist L x (bestColumn L x) \<le> colDist L x c) \<and>
   (\<forall>c\<in>{1..5}. colDist L x c = colDist L x (bestColumn L x) \<longrightarrow> bestColumn L x \<le> c)"
proof -
  let ?R = "snapLoop L x [2, 3, 4, 5] (1, Some (colDist L x 1))"
  have eq: "bestColumn L x = fst ?R"
    by (simp only: bestColumn_def snapLoop_first)
  have srt: "sorted [2, 3, 4, 5 :: int]" by simp
  have bnd: "\<forall>c\<in>set [2, 3, 4, 5 :: int]. 1 \<le> c \<and> c \<le> 5" by simp
  define bc where "bc = fst ?R"
  from snapLoop_min[OF srt bnd, of L x 1 "colDist L x 1"] obtain b where
    b: "b \<le> colDist L x 1" "\<forall>c\<in>set [2, 3, 4, 5]. b \<le> colDist L x c"
       "(bc = 1 \<and> b = colDist L x 1) \<or>
        (bc \<in> set [2, 3, 4, 5] \<and> b = colDist L x bc \<and> b < colDist L x 1)"
       "\<forall>c\<in>set [2, 3, 4, 5]. colDist L x c = b \<longrightarrow> bc = 1 \<or> bc \<le> c"
    unfolding bc_def by blast
  have bd: "colDist L x bc = b" using b(3) by blast
  have r1: "1 \<le> bc \<and> bc \<le> 5" using b(3) by auto
  have r2: "\<forall>c\<in>{1..5}. colDist L x bc \<le> colDist L x c"
    unfolding ball_day bd using b(1,2) by simp
  have r3: "\<forall>c\<in>{1..5}. colDist L x c = b \<longrightarrow> bc \<le> c"
  proof (intro ballI impI)
    fix c :: int
    assume c: "c \<in> {1..5}" and e: "colDist L x c = b"
    show "bc \<le> c"
    proof (cases "c = 1")
      case True
      then have "\<not> b < colDist L x 1" using e by simp
      then have "bc = 1" using b(3) by blast
      then show ?thesis using True by simp
    next
      case False
      then have "c \<in> set [2, 3, 4, 5]" using c unfolding day_cols by simp
      then have "bc = 1 \<or> bc \<le> c" using b(4) e by blast
      moreover have "1 \<le> c" using c by simp
      ultimately show ?thesis by linarith
    qed
  qed
  show ?thesis unfolding eq bc_def[symmetric] using r1 r2 r3 unfolding bd by blast
qed


lemma snapHalf_nearest: "\<bar>snapHalf x - x\<bar> \<le> \<bar>real_of_int n / 2 - x\<bar>"
proof -
  have "\<bar>x * 2 - real_of_int (round (x * 2))\<bar> \<le> \<bar>x * 2 - real_of_int n\<bar>"
    by (rule round_diff_minimal)
  then show ?thesis by (simp add: snapHalf_def abs_if field_simps split: if_splits)
qed

lemma snapCardToGrid_Some:
  assumes "map_of (cards s) k = Some r"
  shows "snapCardToGrid L k e s =
     renderAllCards L (saveCards (s\<lparr>heap := (heap s)(r := (heap s r)
       \<lparr>col := bestColumn L (elCenterX L (style (elems s e))),
        topRowFrac := max 0 (min 11.5 (snapHalf (rowsFromTop L (style (elems s e))
                         (bestColumn L (elCenterX L (style (elems s e)))))))\<rparr>)\<rparr>))"
proof -
  let ?bc = "bestColumn L (elCenterX L (style (elems s e)))"
  have "1 \<le> ?bc \<and> ?bc \<le> 5" using bestColumn_closest by blast
  then have cell: "getCellRect L 1 ?bc = Some (cellBox L 1 ?bc)" by (simp add: getCellRect_day)
  have bc: "fst (snapLoop L (rect_left (style (elems s e)) + rect_left (getGridRect L)
                 + rect_width (style (elems s e)) / 2) [1, 2, 3, 4, 5] (1, None)) = ?bc"
    by (simp only: bestColumn_def elCenterX_def)
  show ?thesis
    unfolding snapCardToGrid_def Let_def bc
    by (simp only: assms cell option.case rowsFromTop_def snapHalf_def)
qed

section \<open>Move-release: the snap to the grid\<close>

text \<open>
  Claim C1. After a move-drag release, \<open>_snapCardToGrid\<close> writes to the stored card
  the day column \<open>bc\<close> whose row-1 cell centre is horizontally closest to the centre of
  the dragged element, the lowest such column on a tie, and the top offset \<open>t\<close>: the
  distance of the element's top from the top of row 1 in rows, rounded to the nearest
  multiple of 0.5 and clamped into [0, 11.5]. No other field of the card changes. An
  offset of 12.2 rows gives 11.5.
\<close>

theorem snapCardToGrid_resolves:
  assumes "map_of (cards s) k = Some r" and "getRowHeight L \<noteq> 0"
    and "el = style (elems s e)" and "cx = elCenterX L el"
  shows "\<exists>bc t. lookupCard (snapCardToGrid L k e s) k = Some ((heap s r)\<lparr>col := bc, topRowFrac := t\<rparr>) \<and>
     bc \<in> {1..5} \<and>
     (\<forall>c\<in>{1..5}. colDist L cx bc \<le> colDist L cx c) \<and>
     (\<forall>c\<in>{1..5}. colDist L cx c = colDist L cx bc \<longrightarrow> bc \<le> c) \<and>
     (\<exists>m::int. snapHalf (rowsFromTop L el bc) = real_of_int m / 2) \<and>
     (\<forall>n::int. \<bar>snapHalf (rowsFromTop L el bc) - rowsFromTop L el bc\<bar>
                \<le> \<bar>real_of_int n / 2 - rowsFromTop L el bc\<bar>) \<and>
     t = max 0 (min 11.5 (snapHalf (rowsFromTop L el bc))) \<and>
     (rowsFromTop L el bc = 12.2 \<longrightarrow> t = 11.5)"
proof -
  let ?bc = "bestColumn L cx"
  let ?t = "max 0 (min 11.5 (snapHalf (rowsFromTop L el ?bc)))"
  have 1: "lookupCard (snapCardToGrid L k e s) k = Some ((heap s r)\<lparr>col := ?bc, topRowFrac := ?t\<rparr>)"
    unfolding snapCardToGrid_Some[OF assms(1)] assms(3,4)
    by (simp add: lookupCard_def renderAllCards_frame saveCards_frame assms(1))
  have 2: "?bc \<in> {1..5}" using bestColumn_closest[of L cx] by simp
  have 3: "\<forall>c\<in>{1..5}. colDist L cx ?bc \<le> colDist L cx c"
    and 4: "\<forall>c\<in>{1..5}. colDist L cx c = colDist L cx ?bc \<longrightarrow> ?bc \<le> c"
    using bestColumn_closest[of L cx] by blast+
  have 5: "\<exists>m::int. snapHalf (rowsFromTop L el ?bc) = real_of_int m / 2"
    unfolding snapHalf_def by blast
  have 6: "\<forall>n::int. \<bar>snapHalf (rowsFromTop L el ?bc) - rowsFromTop L el ?bc\<bar>
                \<le> \<bar>real_of_int n / 2 - rowsFromTop L el ?bc\<bar>"
    using snapHalf_nearest by blast
  have 7: "rowsFromTop L el ?bc = 12.2 \<longrightarrow> ?t = 11.5"
    by (simp add: snapHalf_def round_def)
  show ?thesis using 1 2 3 4 5 6 7 by blast
qed


lemma bestColumn_example: "bestColumn weekGrid 445 = 4"
  by (simp add: bestColumn_def getCellRect_def lessThanBest_def)

lemma snapCardToGrid_example:
  "lookupCard (snapCardToGrid weekGrid ''k1'' 0 droppedView) ''k1''
     = Some (mathCard\<lparr>col := 4, topRowFrac := 11.5\<rparr>)"
  by (simp add: snapCardToGrid_Some droppedView_def elCenterX_def bestColumn_example
      rowsFromTop_def snapHalf_def round_def lookupCard_def)

theorem snapCardToGrid_resolves_witness:
  "map_of (cards droppedView) ''k1'' = Some 0 \<and> getRowHeight weekGrid \<noteq> 0 \<and>
   rowsFromTop weekGrid (style (elems droppedView 0)) 4 = 12.2 \<and>
   lookupCard (snapCardToGrid weekGrid ''k1'' 0 droppedView) ''k1''
     = Some (mathCard\<lparr>col := 4, topRowFrac := 11.5\<rparr>) \<and>
   (\<exists>bc t. lookupCard (snapCardToGrid weekGrid ''k1'' 0 droppedView) ''k1''
        = Some ((heap droppedView 0)\<lparr>col := bc, topRowFrac := t\<rparr>) \<and>
     bc \<in> {1..5} \<and>
     (\<forall>c\<in>{1..5}. colDist weekGrid 445 bc \<le> colDist weekGrid 445 c) \<and>
     (rowsFromTop weekGrid (style (elems droppedView 0)) bc = 12.2 \<longrightarrow> t = 11.5))"
proof -
  have h1: "map_of (cards droppedView) ''k1'' = Some 0" by (simp add: droppedView_def)
  have h2: "getRowHeight weekGrid \<noteq> 0" by simp
  have h3: "445 = elCenterX weekGrid (style (elems droppedView 0))"
    by (simp add: elCenterX_def droppedView_def)
  have h4: "rowsFromTop weekGrid (style (elems droppedView 0)) 4 = 12.2"
    by (simp add: rowsFromTop_def droppedView_def)
  have c: "\<exists>bc t. lookupCard (snapCardToGrid weekGrid ''k1'' 0 droppedView) ''k1''
        = Some ((heap droppedView 0)\<lparr>col := bc, topRowFrac := t\<rparr>) \<and>
     bc \<in> {1..5} \<and>
     (\<forall>c\<in>{1..5}. colDist weekGrid 445 bc \<le> colDist weekGrid 445 c) \<and>
     (rowsFromTop weekGrid (style (elems droppedView 0)) bc = 12.2 \<longrightarrow> t = 11.5)"
    using snapCardToGrid_resolves[OF h1 h2 refl h3] by blast
  show ?thesis using h1 h2 h4 snapCardToGrid_example c by blast
qed

section \<open>Rendering places every card by the same formula\<close>

lemma renderCardRect_SomeD:
  assumes "renderCardRect L c = Some box"
  shows "getColWidth L \<noteq> 0" "getRowHeight L \<noteq> 0" "0 \<le> col c" "col c \<le> 5"
    "rect_width box = 0.90 * getColWidth L"
    "rect_left box + rect_left (getGridRect L) = rect_left (cellBox L 1 (col c)) + 0.05 * getColWidth L"
    "rect_height box = max (max (heightFrac c) 0.5 * getRowHeight L - 2 * (0.10 * getRowHeight L))
                           (0.30 * getRowHeight L)"
    "rect_top box + rect_top (getGridRect L) =
        rect_top (cellBox L 1 (col c)) + topRowFrac c * getRowHeight L + 0.10 * getRowHeight L"
  using assms
  by (auto simp add: renderCardRect_def getCellRect_def Let_def algebra_simps split: if_splits)

lemma renderCardRect_Some:
  assumes "getColWidth L \<noteq> 0" and "getRowHeight L \<noteq> 0" and "0 \<le> col c" and "col c \<le> 5"
  shows "\<exists>box. renderCardRect L c = Some box"
  using assms by (simp add: renderCardRect_def getCellRect_def Let_def)

lemma renderCard_keeps:
  assumes "list_all (renderedFrom L s) (gridCards s)"
  shows "list_all (renderedFrom L (renderCard L r s)) (gridCards (renderCard L r s))"
proof (cases "renderCardRect L (heap s r)")
  case None
  then show ?thesis using assms by (simp add: renderCard_def)
next
  case (Some box)
  have nz: "getRowHeight L \<noteq> 0" using renderCardRect_SomeD(2)[OF Some] .
  have old: "\<forall>e\<in>set (gridCards s). renderedFrom L (renderCard L r s) e"
    using assms Some by (auto simp add: list_all_iff renderedFrom_def renderCard_def)
  have new: "renderedFrom L (renderCard L r s) (nextEl s)"
    using Some nz by (simp add: renderedFrom_def renderCard_def)
  show ?thesis using old new Some by (simp add: list_all_iff renderCard_def)
qed

lemma renderEach_keeps:
  "list_all (renderedFrom L s) (gridCards s) \<Longrightarrow>
   list_all (renderedFrom L (renderEach L rs s)) (gridCards (renderEach L rs s))"
  by (induction rs arbitrary: s) (simp_all add: renderCard_keeps)

lemma renderAllCards_rendered:
  "list_all (renderedFrom L (renderAllCards L s)) (gridCards (renderAllCards L s))"
  unfolding renderAllCards_def by (rule renderEach_keeps) simp

lemma renderCard_has:
  assumes "list_all (renderedFrom L s) (gridCards s)" and "cardRef (elems s e) = r0" and "e \<in> set (gridCards s)"
  shows "e \<in> set (gridCards (renderCard L r s)) \<and> cardRef (elems (renderCard L r s) e) = r0"
  using assms by (auto simp add: renderCard_def list_all_iff renderedFrom_def split: option.splits)

lemma renderEach_has:
  assumes "list_all (renderedFrom L s) (gridCards s)" and "cardRef (elems s e) = r0" and "e \<in> set (gridCards s)"
  shows "\<exists>e'\<in>set (gridCards (renderEach L rs s)). cardRef (elems (renderEach L rs s) e') = r0"
  using assms
proof (induction rs arbitrary: s)
  case Nil
  then show ?case by auto
next
  case (Cons r rs)
  show ?case
    using Cons.IH[OF renderCard_keeps[OF Cons.prems(1)]] renderCard_has[OF Cons.prems]
    by simp
qed

lemma renderEach_shows:
  assumes "list_all (renderedFrom L s) (gridCards s)" and "r0 \<in> set rs"
    and "renderCardRect L (heap s r0) \<noteq> None"
  shows "\<exists>e\<in>set (gridCards (renderEach L rs s)). cardRef (elems (renderEach L rs s) e) = r0"
  using assms
proof (induction rs arbitrary: s)
  case Nil
  then show ?case by simp
next
  case (Cons r rs)
  have keep: "list_all (renderedFrom L (renderCard L r s)) (gridCards (renderCard L r s))"
    using Cons.prems(1) by (rule renderCard_keeps)
  show ?case
  proof (cases "r = r0")
    case True
    have "nextEl s \<in> set (gridCards (renderCard L r s)) \<and> cardRef (elems (renderCard L r s) (nextEl s)) = r0"
      using Cons.prems(3) True by (auto simp add: renderCard_def)
    then show ?thesis using renderEach_has[OF keep, of "nextEl s" r0 rs] by simp
  next
    case False
    then have "r0 \<in> set rs" using Cons.prems(2) by simp
    moreover have "renderCardRect L (heap (renderCard L r s) r0) \<noteq> None"
      using Cons.prems(3) by (simp add: renderCard_frame)
    ultimately show ?thesis using Cons.IH[OF keep] by simp
  qed
qed

text \<open>
  Claim C7. After \<open>_renderAllCards\<close>, every card element of the grid has width 90% of
  \<open>colWidth\<close>; its left edge, in viewport coordinates, is the left edge of its column's
  row-1 cell plus 5% of \<open>colWidth\<close>; its height is
  \<open>max (max heightFrac 0.5 * rowHeight - 2 * (0.10 * rowHeight)) (0.30 * rowHeight)\<close>;
  its top is the top of that cell plus \<open>topRowFrac * rowHeight + 0.10 * rowHeight\<close>.
  When the measured column width and row height are not zero, every stored card whose
  column has a cell in row 1 has such an element.
\<close>

theorem renderAllCards_rectangles:
  assumes "s' = renderAllCards L s"
  shows "(\<forall>e\<in>set (gridCards s').
           rect_width (style (elems s' e)) = 0.90 * getColWidth L \<and>
           rect_left (style (elems s' e)) + rect_left (getGridRect L)
             = rect_left (cellBox L 1 (col (heap s (cardRef (elems s' e))))) + 0.05 * getColWidth L \<and>
           rect_height (style (elems s' e))
             = max (max (heightFrac (heap s (cardRef (elems s' e)))) 0.5 * getRowHeight L
                      - 2 * (0.10 * getRowHeight L))
                   (0.30 * getRowHeight L) \<and>
           rect_top (style (elems s' e)) + rect_top (getGridRect L)
             = rect_top (cellBox L 1 (col (heap s (cardRef (elems s' e)))))
                 + topRowFrac (heap s (cardRef (elems s' e))) * getRowHeight L
                 + 0.10 * getRowHeight L) \<and>
         (getColWidth L \<noteq> 0 \<and> getRowHeight L \<noteq> 0 \<longrightarrow>
            (\<forall>k r. map_of (cards s) k = Some r \<and> 0 \<le> col (heap s r) \<and> col (heap s r) \<le> 5 \<longrightarrow>
               (\<exists>e\<in>set (gridCards s'). cardRef (elems s' e) = r)))"
proof (intro conjI ballI impI allI)
  fix e assume e: "e \<in> set (gridCards s')"
  have "renderedFrom L s' e"
    using renderAllCards_rendered[of L s] e unfolding assms list_all_iff by blast
  then have box: "renderCardRect L (heap s (cardRef (elems s' e))) = Some (style (elems s' e))"
    by (simp add: renderedFrom_def assms)
  note d = renderCardRect_SomeD[OF box]
  show "rect_width (style (elems s' e)) = 0.90 * getColWidth L" by (rule d(5))
  show "rect_left (style (elems s' e)) + rect_left (getGridRect L)
             = rect_left (cellBox L 1 (col (heap s (cardRef (elems s' e))))) + 0.05 * getColWidth L"
    by (rule d(6))
  show "rect_height (style (elems s' e))
             = max (max (heightFrac (heap s (cardRef (elems s' e)))) 0.5 * getRowHeight L
                      - 2 * (0.10 * getRowHeight L))
                   (0.30 * getRowHeight L)" by (rule d(7))
  show "rect_top (style (elems s' e)) + rect_top (getGridRect L)
             = rect_top (cellBox L 1 (col (heap s (cardRef (elems s' e)))))
                 + topRowFrac (heap s (cardRef (elems s' e))) * getRowHeight L
                 + 0.10 * getRowHeight L" by (rule d(8))
next
  fix k r
  assume m: "getColWidth L \<noteq> 0 \<and> getRowHeight L \<noteq> 0"
    and kr: "map_of (cards s) k = Some r \<and> 0 \<le> col (heap s r) \<and> col (heap s r) \<le> 5"
  have "r \<in> set (map snd (cards s))" using kr by (force dest: map_of_SomeD)
  moreover have "renderCardRect L (heap (s\<lparr>gridCards := []\<rparr>) r) \<noteq> None"
    using renderCardRect_Some[of L "heap s r"] m kr by auto
  ultimately show "\<exists>e\<in>set (gridCards s'). cardRef (elems s' e) = r"
    unfolding assms renderAllCards_def by (intro renderEach_shows) simp_all
qed


lemma renderAllCards_example:
  "gridCards (renderAllCards weekGrid droppedView) = [1]"
  "style (elems (renderAllCards weekGrid droppedView) 1)
     = \<lparr>rect_left = 185, rect_top = 124, rect_width = 90, rect_height = 32\<rparr>"
  "cardRef (elems (renderAllCards weekGrid droppedView) 1) = 0"
  by (simp_all add: renderAllCards_def renderCard_def renderCardRect_def getCellRect_def
      droppedView_def mathCard_def)

theorem renderAllCards_rectangles_witness:
  "1 \<in> set (gridCards (renderAllCards weekGrid droppedView)) \<and>
   getColWidth weekGrid \<noteq> 0 \<and> getRowHeight weekGrid \<noteq> 0 \<and>
   map_of (cards droppedView) ''k1'' = Some 0 \<and>
   0 \<le> col (heap droppedView 0) \<and> col (heap droppedView 0) \<le> 5 \<and>
   style (elems (renderAllCards weekGrid droppedView) 1)
     = \<lparr>rect_left = 185, rect_top = 124, rect_width = 90, rect_height = 32\<rparr> \<and>
   rect_width (style (elems (renderAllCards weekGrid droppedView) 1)) = 0.90 * getColWidth weekGrid \<and>
   rect_height (style (elems (renderAllCards weekGrid droppedView) 1))
     = max (max (heightFrac (heap droppedView 0)) 0.5 * getRowHeight weekGrid
              - 2 * (0.10 * getRowHeight weekGrid))
           (0.30 * getRowHeight weekGrid) \<and>
   (\<exists>e\<in>set (gridCards (renderAllCards weekGrid droppedView)).
      cardRef (elems (renderAllCards weekGrid droppedView) e) = 0)"
proof -
  let ?s' = "renderAllCards weekGrid droppedView"
  have h1: "1 \<in> set (gridCards ?s')" by (simp add: renderAllCards_example)
  have h2: "getColWidth weekGrid \<noteq> 0 \<and> getRowHeight weekGrid \<noteq> 0" by simp
  have h3: "map_of (cards droppedView) ''k1'' = Some 0 \<and>
            0 \<le> col (heap droppedView 0) \<and> col (heap droppedView 0) \<le> 5"
    by (simp add: droppedView_def mathCard_def)
  note t = renderAllCards_rectangles[OF refl, of weekGrid droppedView]
  have c1: "rect_width (style (elems ?s' 1)) = 0.90 * getColWidth weekGrid \<and>
      rect_height (style (elems ?s' 1))
        = max (max (heightFrac (heap droppedView 0)) 0.5 * getRowHeight weekGrid
              - 2 * (0.10 * getRowHeight weekGrid))
           (0.30 * getRowHeight weekGrid)"
    using conjunct1[OF t, THEN bspec, OF h1] unfolding renderAllCards_example(3) by blast
  have c2: "\<exists>e\<in>set (gridCards ?s'). cardRef (elems ?s' e) = 0"
    using t h2 h3 by blast
  show ?thesis using h1 h2 h3 c1 c2 renderAllCards_example(2) by blast
qed

section \<open>Facts about the store\<close>

lemma set_update_subset: "set (AList.update k v al) \<subseteq> insert (k, v) (set al)"
  by (induction al) auto


lemma wellFormed_lookup:
  assumes "wellFormed s" and "map_of (cards s) k = Some r"
  shows "r < nextObj s" and "card_id (heap s r) = k"
  using assms by (auto simp add: wellFormed_def list_all_iff dest!: map_of_SomeD)

lemma handle_onUp_frame0 [simp]:
  "cards (handle_onUp e s) = cards s" "activeCardId (handle_onUp e s) = activeCardId s"
  "nextObj (handle_onUp e s) = nextObj s" "gridCards (handle_onUp e s) = gridCards s"
  "nextEl (handle_onUp e s) = nextEl s"
  "heap (handle_onUp e s) = (heap s)(cardRef (elems s e) := (heap s (cardRef (elems s e)))
       \<lparr>heightFrac := max 0.5 (snapHalf (rect_height (style (elems s e)) / capRowHeight (elems s e)))\<rparr>)"
  by (simp_all add: handle_onUp_def Let_def snapHalf_def)

lemma createCard_lookup:
  "lookupCard (createCard L newId row dayCol s) newId =
     Some \<lparr>card_id = newId, col = dayCol, topRowFrac = real_of_int row - 1, heightFrac = 1,
           card_text = ''Neue Karte'', color = ''#a8d8ea''\<rparr>"
  by (simp add: createCard_def Let_def lookupCard_def AList.update_conv' CARD_COLORS_def)

lemma createCard_frame [simp]:
  "activeCardId (createCard L newId row dayCol s) = Some newId"
  "cards (createCard L newId row dayCol s) = AList.update newId (nextObj s) (cards s)"
  "nextObj (createCard L newId row dayCol s) = Suc (nextObj s)"
  "heap (createCard L newId row dayCol s) = (heap s)(nextObj s :=
      \<lparr>card_id = newId, col = dayCol, topRowFrac = real_of_int row - 1, heightFrac = 1,
           card_text = ''Neue Karte'', color = ''#a8d8ea''\<rparr>)"
  by (simp_all add: createCard_def Let_def CARD_COLORS_def)

lemma copyActiveCard_noop:
  "\<not> truthy (activeCardId s) \<Longrightarrow> copyActiveCard L newId s = s"
  "activeCardId s = Some a \<Longrightarrow> map_of (cards s) a = None \<Longrightarrow> copyActiveCard L newId s = s"
  by (auto simp add: copyActiveCard_def truthy_def split: option.splits)

lemma copyActiveCard_Some:
  assumes "activeCardId s = Some a" and "a \<noteq> []" and "map_of (cards s) a = Some r"
  shows "copyActiveCard L newId s =
     renderAllCards L (saveCards (s\<lparr>heap := (heap s)(nextObj s := (heap s r)
           \<lparr>card_id := newId, topRowFrac := topRowFrac (heap s r) + heightFrac (heap s r) + 0.5\<rparr>),
         nextObj := Suc (nextObj s),
         cards := AList.update newId (nextObj s) (cards s),
         activeCardId := Some newId\<rparr>))"
  using assms by (simp add: copyActiveCard_def truthy_def Let_def)

section \<open>The height of a stored card\<close>

lemma heightOk_createCard: "heightOk s \<Longrightarrow> heightOk (createCard L newId row dayCol s)"
  using set_update_subset[of newId "nextObj s" "cards s"]
  by (auto simp add: heightOk_def list_all_iff)

lemma heightOk_handle_onUp: "heightOk s \<Longrightarrow> heightOk (handle_onUp e s)"
  by (auto simp add: heightOk_def list_all_iff)

lemma heightOk_copyActiveCard:
  assumes "heightOk s"
  shows "heightOk (copyActiveCard L newId s)"
proof (cases "truthy (activeCardId s)")
  case False
  then show ?thesis using assms by (simp add: copyActiveCard_noop)
next
  case True
  then obtain a where a: "activeCardId s = Some a" "a \<noteq> []"
    by (auto simp add: truthy_def split: option.splits)
  show ?thesis
  proof (cases "map_of (cards s) a")
    case None
    then show ?thesis using assms a by (simp add: copyActiveCard_noop)
  next
    case (Some r)
    have "(a, r) \<in> set (cards s)" using Some by (rule map_of_SomeD)
    then have "0.5 \<le> heightFrac (heap s r)" using assms by (auto simp add: heightOk_def list_all_iff)
    then show ?thesis
      using assms set_update_subset[of newId "nextObj s" "cards s"]
      by (auto simp add: copyActiveCard_Some[OF a Some] heightOk_def list_all_iff)
  qed
qed

text \<open>
  Claim C5. \<open>heightFrac\<close> is at least 0.5 after a create, a resize-release and a copy:
  the card \<open>_createCard\<close> stores has \<open>heightFrac = 1\<close>; the resize-release writes
  the height in rows, rounded to a multiple of 0.5 and floored at 0.5; the copy has
  the \<open>heightFrac\<close> of the original. Each of the three keeps \<open>heightFrac \<ge> 0.5\<close> for
  every stored card.
\<close>

theorem heightFrac_at_least_half:
  "(\<exists>c. lookupCard (createCard L newId row dayCol s) newId = Some c \<and> heightFrac c = 1) \<and>
   (heightOk s \<longrightarrow> heightOk (createCard L newId row dayCol s)) \<and>
   (capRowHeight (elems s e) \<noteq> 0 \<longrightarrow>
      heightFrac (heap (handle_onUp e s) (cardRef (elems s e)))
        = max 0.5 (snapHalf (rect_height (style (elems s e)) / capRowHeight (elems s e))) \<and>
      0.5 \<le> heightFrac (heap (handle_onUp e s) (cardRef (elems s e))) \<and>
      (heightOk s \<longrightarrow> heightOk (handle_onUp e s))) \<and>
   (\<forall>a x. activeCardId s = Some a \<and> a \<noteq> [] \<and> lookupCard s a = Some x \<longrightarrow>
      (\<exists>c. lookupCard (copyActiveCard L newId s) newId = Some c \<and> heightFrac c = heightFrac x)) \<and>
   (heightOk s \<longrightarrow> heightOk (copyActiveCard L newId s))"
proof (intro conjI impI allI)
  show "\<exists>c. lookupCard (createCard L newId row dayCol s) newId = Some c \<and> heightFrac c = 1"
    by (simp add: createCard_lookup)
  show "heightOk s \<Longrightarrow> heightOk (createCard L newId row dayCol s)" by (rule heightOk_createCard)
  show "heightFrac (heap (handle_onUp e s) (cardRef (elems s e)))
        = max 0.5 (snapHalf (rect_height (style (elems s e)) / capRowHeight (elems s e)))"
    by simp
  show "0.5 \<le> heightFrac (heap (handle_onUp e s) (cardRef (elems s e)))" by simp
  show "heightOk s \<Longrightarrow> heightOk (handle_onUp e s)" by (rule heightOk_handle_onUp)
  show "heightOk s \<Longrightarrow> heightOk (copyActiveCard L newId s)" by (rule heightOk_copyActiveCard)
next
  fix a x
  assume h: "activeCardId s = Some a \<and> a \<noteq> [] \<and> lookupCard s a = Some x"
  then obtain r where r: "map_of (cards s) a = Some r" "x = heap s r"
    by (auto simp add: lookupCard_def)
  show "\<exists>c. lookupCard (copyActiveCard L newId s) newId = Some c \<and> heightFrac c = heightFrac x"
    using h r by (simp add: copyActiveCard_Some[of s a r] lookupCard_def AList.update_conv')
qed

lemma droppedView_simps [simp]:
  "cards droppedView = [(''k1'', 0)]" "heap droppedView r = mathCard" "nextObj droppedView = 1"
  "activeCardId droppedView = Some ''k1''" "gridCards droppedView = [0]" "nextEl droppedView = 1"
  "elems droppedView e = \<lparr>dataId = ''k1'',
       style = \<lparr>rect_left = 390, rect_top = 528, rect_width = 90, rect_height = 32\<rparr>,
       contentEditable = False, cardRef = 0, capRowHeight = 40\<rparr>"
  by (simp_all add: droppedView_def)

lemma droppedView_ok: "wellFormed droppedView" "heightOk droppedView"
  by (simp_all add: wellFormed_def heightOk_def mathCard_def)

theorem heightFrac_at_least_half_witness:
  "heightOk droppedView \<and> capRowHeight (elems droppedView 0) \<noteq> 0 \<and>
   activeCardId droppedView = Some ''k1'' \<and> ''k1'' \<noteq> [] \<and>
   lookupCard droppedView ''k1'' = Some mathCard \<and>
   heightOk (createCard weekGrid ''k2'' 3 2 droppedView) \<and>
   0.5 \<le> heightFrac (heap (handle_onUp 0 droppedView) (cardRef (elems droppedView 0))) \<and>
   heightOk (handle_onUp 0 droppedView) \<and>
   (\<exists>c. lookupCard (copyActiveCard weekGrid ''k2'' droppedView) ''k2'' = Some c \<and>
        heightFrac c = heightFrac mathCard) \<and>
   heightOk (copyActiveCard weekGrid ''k2'' droppedView)"
proof -
  have h1: "heightOk droppedView" by (rule droppedView_ok)
  have h2: "capRowHeight (elems droppedView 0) \<noteq> 0" by simp
  have h3: "activeCardId droppedView = Some ''k1'' \<and> ''k1'' \<noteq> [] \<and>
            lookupCard droppedView ''k1'' = Some mathCard"
    by (simp add: lookupCard_def)
  note t = heightFrac_at_least_half[of weekGrid "''k2''" 3 2 droppedView 0]
  show ?thesis using t h1 h2 h3 by blast
qed

section \<open>Operations on an id that is not stored\<close>

lemma lookupCard_handle_onUp:
  "lookupCard (handle_onUp e s) k =
     map_option (\<lambda>r. if r = cardRef (elems s e)
        then (heap s r)\<lparr>heightFrac := max 0.5 (snapHalf (rect_height (style (elems s e)) / capRowHeight (elems s e)))\<rparr>
        else heap s r) (map_of (cards s) k)"
  by (cases "map_of (cards s) k") (simp_all add: lookupCard_def)

text \<open>
  Claim C9. When the id \<open>k\<close> is not a key of \<open>this.cards\<close>, a move-release, a recolor,
  a text commit and a delete for \<open>k\<close> leave the card mapping as it was, and so does
  a resize-release on an element whose card has the id \<open>k\<close>: it writes to an object
  that the mapping does not hold.
\<close>

theorem unknown_id_changes_nothing:
  assumes "map_of (cards s) k = None"
  shows "snapCardToGrid L k e s = s \<and>
         setCardColor L k c s = s \<and>
         lookupCard (editDone k e txt s) = lookupCard s \<and>
         lookupCard (deleteCard L k s) = lookupCard s \<and>
         (wellFormed s \<and> card_id (heap s (cardRef (elems s e))) = k \<longrightarrow>
            lookupCard (handle_onUp e s) = lookupCard s)"
proof (intro conjI impI)
  show "snapCardToGrid L k e s = s" using assms by (simp add: snapCardToGrid_def)
  show "setCardColor L k c s = s" using assms by (simp add: setCardColor_def)
  show "lookupCard (editDone k e txt s) = lookupCard s"
    using assms by (auto simp add: editDone_def Let_def lookupCard_def fun_eq_iff)
  have "k \<notin> fst ` set (cards s)" using assms by (simp add: map_of_eq_None_iff)
  then have "AList.delete k (cards s) = cards s" by simp
  then show "lookupCard (deleteCard L k s) = lookupCard s"
    by (auto simp add: deleteCard_def Let_def lookupCard_def fun_eq_iff)
next
  assume a: "wellFormed s \<and> card_id (heap s (cardRef (elems s e))) = k"
  have "\<forall>k'. map_of (cards s) k' \<noteq> Some (cardRef (elems s e))"
  proof (intro allI notI)
    fix k' assume "map_of (cards s) k' = Some (cardRef (elems s e))"
    then have "k' = k" using wellFormed_lookup(2)[of s k'] a by simp
    then show False using assms \<open>map_of (cards s) k' = Some (cardRef (elems s e))\<close> by simp
  qed
  then show "lookupCard (handle_onUp e s) = lookupCard s"
    by (auto simp add: lookupCard_handle_onUp lookupCard_def fun_eq_iff map_option_case
          split: option.splits)
qed

lemma deleted_example:
  "cards (deleteCard weekGrid ''k1'' droppedView) = []"
  "heap (deleteCard weekGrid ''k1'' droppedView) = heap droppedView"
  "elems (deleteCard weekGrid ''k1'' droppedView) = elems droppedView"
  "nextObj (deleteCard weekGrid ''k1'' droppedView) = 1"
  by (simp_all add: deleteCard_def Let_def renderAllCards_def)

theorem unknown_id_changes_nothing_witness:
  "map_of (cards (deleteCard weekGrid ''k1'' droppedView)) ''k1'' = None \<and>
   wellFormed (deleteCard weekGrid ''k1'' droppedView) \<and>
   card_id (heap (deleteCard weekGrid ''k1'' droppedView)
      (cardRef (elems (deleteCard weekGrid ''k1'' droppedView) 0))) = ''k1'' \<and>
   snapCardToGrid weekGrid ''k1'' 0 (deleteCard weekGrid ''k1'' droppedView)
     = deleteCard weekGrid ''k1'' droppedView \<and>
   lookupCard (handle_onUp 0 (deleteCard weekGrid ''k1'' droppedView))
     = lookupCard (deleteCard weekGrid ''k1'' droppedView) \<and>
   heightFrac (heap (handle_onUp 0 (deleteCard weekGrid ''k1'' droppedView)) 0) = 1"
proof -
  let ?s = "deleteCard weekGrid ''k1'' droppedView"
  have h1: "map_of (cards ?s) ''k1'' = None" by (simp add: deleted_example)
  have h2: "wellFormed ?s \<and> card_id (heap ?s (cardRef (elems ?s 0))) = ''k1''"
    by (simp add: wellFormed_def deleted_example mathCard_def)
  have c: "heightFrac (heap (handle_onUp 0 ?s) 0) = 1"
    by (simp add: deleted_example snapHalf_def round_def mathCard_def)
  note t = unknown_id_changes_nothing[OF h1, of weekGrid 0 "''#cfcfcf''" "''Physik''"]
  show ?thesis using t h1 h2 c by blast
qed

section \<open>What a resize-release changes\<close>

text \<open>
  Claim C10. A resize-release changes only the \<open>heightFrac\<close> of the resized card: its
  id, column, top offset, text and colour, and every other stored card, are as before.
\<close>

theorem handle_onUp_only_heightFrac:
  assumes "wellFormed s" and "r = cardRef (elems s e)" and "map_of (cards s) k = Some r"
    and "s' = handle_onUp e s"
    and "h = max 0.5 (snapHalf (rect_height (style (elems s e)) / capRowHeight (elems s e)))"
    and "capRowHeight (elems s e) \<noteq> 0"
  shows "lookupCard s' k = Some ((heap s r)\<lparr>heightFrac := h\<rparr>) \<and>
         (\<exists>c'. lookupCard s' k = Some c' \<and> card_id c' = card_id (heap s r) \<and>
                col c' = col (heap s r) \<and> topRowFrac c' = topRowFrac (heap s r) \<and>
                card_text c' = card_text (heap s r) \<and> color c' = color (heap s r)) \<and>
         (\<forall>k'. k' \<noteq> k \<longrightarrow> lookupCard s' k' = lookupCard s k') \<and>
         cards s' = cards s \<and> activeCardId s' = activeCardId s"
proof -
  have 1: "lookupCard s' k = Some ((heap s r)\<lparr>heightFrac := h\<rparr>)"
    using assms by (simp add: lookupCard_handle_onUp)
  have 2: "\<forall>k'. k' \<noteq> k \<longrightarrow> lookupCard s' k' = lookupCard s k'"
  proof (intro allI impI)
    fix k' assume ne: "k' \<noteq> k"
    have "map_of (cards s) k' \<noteq> Some r"
      using wellFormed_lookup(2)[OF assms(1), of k' r] wellFormed_lookup(2)[OF assms(1) assms(3)] ne by auto
    then show "lookupCard s' k' = lookupCard s k'"
      unfolding assms(4) lookupCard_handle_onUp assms(2)[symmetric]
      by (cases "map_of (cards s) k'") (simp_all add: lookupCard_def)
  qed
  show ?thesis using 1 2 assms(4) by simp
qed

section \<open>The example views, evaluated\<close>

lemma shownView_eq:
  "shownView =
     \<lparr>heap = (\<lambda>_. noCard)
        (0 := \<lparr>card_id = ''k1'', col = 2, topRowFrac = 2, heightFrac = 1,
               card_text = ''Neue Karte'', color = ''#a8d8ea''\<rparr>),
      nextObj = Suc 0, cards = [(''k1'', 0)], activeCardId = Some ''k1'',
      elems = (\<lambda>_. noElement)
        (0 := \<lparr>dataId = ''k1'',
               style = \<lparr>rect_left = 185, rect_top = 124, rect_width = 90, rect_height = 32\<rparr>,
               contentEditable = False, cardRef = 0, capRowHeight = 40\<rparr>),
      nextEl = Suc 0, gridCards = [0],
      savedData = [(''k1'', \<lparr>card_id = ''k1'', col = 2, topRowFrac = 2, heightFrac = 1,
                             card_text = ''Neue Karte'', color = ''#a8d8ea''\<rparr>)]\<rparr>"
  by (simp add: shownView_def emptyView_def createCard_def Let_def renderAllCards_def
      renderCard_def renderCardRect_def getCellRect_def saveCards_def CARD_COLORS_def)

lemma twoCardView_eq:
  "twoCardView =
     \<lparr>heap = (\<lambda>_. noCard)
        (0 := \<lparr>card_id = ''k1'', col = 2, topRowFrac = 2, heightFrac = 1,
               card_text = ''Neue Karte'', color = ''#a8d8ea''\<rparr>,
         Suc 0 := \<lparr>card_id = ''k2'', col = 4, topRowFrac = 4, heightFrac = 1,
               card_text = ''Neue Karte'', color = ''#a8d8ea''\<rparr>),
      nextObj = Suc (Suc 0), cards = [(''k1'', 0), (''k2'', Suc 0)], activeCardId = Some ''k2'',
      elems = (\<lambda>_. noElement)
        (0 := \<lparr>dataId = ''k1'',
               style = \<lparr>rect_left = 185, rect_top = 124, rect_width = 90, rect_height = 32\<rparr>,
               contentEditable = False, cardRef = 0, capRowHeight = 40\<rparr>,
         Suc 0 := \<lparr>dataId = ''k1'',
               style = \<lparr>rect_left = 185, rect_top = 124, rect_width = 90, rect_height = 32\<rparr>,
               contentEditable = False, cardRef = 0, capRowHeight = 40\<rparr>,
         Suc (Suc 0) := \<lparr>dataId = ''k2'',
               style = \<lparr>rect_left = 385, rect_top = 204, rect_width = 90, rect_height = 32\<rparr>,
               contentEditable = False, cardRef = Suc 0, capRowHeight = 40\<rparr>),
      nextEl = Suc (Suc (Suc 0)), gridCards = [Suc 0, Suc (Suc 0)],
      savedData = [(''k1'', \<lparr>card_id = ''k1'', col = 2, topRowFrac = 2, heightFrac = 1,
                             card_text = ''Neue Karte'', color = ''#a8d8ea''\<rparr>),
                   (''k2'', \<lparr>card_id = ''k2'', col = 4, topRowFrac = 4, heightFrac = 1,
                             card_text = ''Neue Karte'', color = ''#a8d8ea''\<rparr>)]\<rparr>"
  by (simp add: twoCardView_def shownView_eq createCard_def Let_def renderAllCards_def
      renderCard_def renderCardRect_def getCellRect_def saveCards_def CARD_COLORS_def)

section \<open>A resize-release with a second card in the store\<close>

lemma heldHandleView_simps:
  "cards heldHandleView = [(''k1'', 0), (''k2'', Suc 0)]"
  "activeCardId heldHandleView = Some ''k2''"
  "nextObj heldHandleView = Suc (Suc 0)"
  "heap heldHandleView 0 = \<lparr>card_id = ''k1'', col = 2, topRowFrac = 2, heightFrac = 1,
               card_text = ''Neue Karte'', color = ''#a8d8ea''\<rparr>"
  "heap heldHandleView (Suc 0) = \<lparr>card_id = ''k2'', col = 4, topRowFrac = 4, heightFrac = 1,
               card_text = ''Neue Karte'', color = ''#a8d8ea''\<rparr>"
  "elems heldHandleView (Suc 0) = \<lparr>dataId = ''k1'',
               style = \<lparr>rect_left = 185, rect_top = 124, rect_width = 90, rect_height = 56\<rparr>,
               contentEditable = False, cardRef = 0, capRowHeight = 40\<rparr>"
  by (simp_all add: heldHandleView_def handle_mousedown_def handle_onMove_def Let_def twoCardView_eq)

theorem handle_onUp_only_heightFrac_witness:
  "wellFormed heldHandleView \<and>
   map_of (cards heldHandleView) ''k1'' = Some (cardRef (elems heldHandleView (Suc 0))) \<and>
   capRowHeight (elems heldHandleView (Suc 0)) \<noteq> 0 \<and>
   handle_onUp (Suc 0) heldHandleView = handle_gesture 156 [180] (Suc 0) twoCardView \<and>
   lookupCard heldHandleView ''k1''
     = Some \<lparr>card_id = ''k1'', col = 2, topRowFrac = 2, heightFrac = 1,
             card_text = ''Neue Karte'', color = ''#a8d8ea''\<rparr> \<and>
   lookupCard (handle_onUp (Suc 0) heldHandleView) ''k1''
     = Some \<lparr>card_id = ''k1'', col = 2, topRowFrac = 2, heightFrac = 1.5,
             card_text = ''Neue Karte'', color = ''#a8d8ea''\<rparr> \<and>
   ''k2'' \<noteq> ''k1'' \<and>
   lookupCard (handle_onUp (Suc 0) heldHandleView) ''k2''
     = Some \<lparr>card_id = ''k2'', col = 4, topRowFrac = 4, heightFrac = 1,
             card_text = ''Neue Karte'', color = ''#a8d8ea''\<rparr> \<and>
   cards (handle_onUp (Suc 0) heldHandleView) = [(''k1'', 0), (''k2'', Suc 0)] \<and>
   activeCardId (handle_onUp (Suc 0) heldHandleView) = Some ''k2''"
proof -
  let ?s' = "handle_onUp (Suc 0) heldHandleView"
  have h1: "wellFormed heldHandleView"
    by (simp add: wellFormed_def heldHandleView_simps)
  have h3: "map_of (cards heldHandleView) ''k1'' = Some (cardRef (elems heldHandleView (Suc 0)))"
    by (simp add: heldHandleView_simps)
  have h5: "1.5 = max 0.5 (snapHalf (rect_height (style (elems heldHandleView (Suc 0)))
                                       / capRowHeight (elems heldHandleView (Suc 0))))"
    by (simp add: heldHandleView_simps snapHalf_def round_def)
  have h6: "capRowHeight (elems heldHandleView (Suc 0)) \<noteq> 0"
    by (simp add: heldHandleView_simps)
  have g: "?s' = handle_gesture 156 [180] (Suc 0) twoCardView"
    by (simp only: handle_gesture_def heldHandleView_def)
  have before: "lookupCard heldHandleView ''k1''
     = Some \<lparr>card_id = ''k1'', col = 2, topRowFrac = 2, heightFrac = 1,
             card_text = ''Neue Karte'', color = ''#a8d8ea''\<rparr>"
    and k2: "lookupCard heldHandleView ''k2''
     = Some \<lparr>card_id = ''k2'', col = 4, topRowFrac = 4, heightFrac = 1,
             card_text = ''Neue Karte'', color = ''#a8d8ea''\<rparr>"
    by (simp_all add: lookupCard_def heldHandleView_simps)
  have ne: "''k2'' \<noteq> ''k1''" by simp
  note t = handle_onUp_only_heightFrac[OF h1 refl h3 refl h5 h6]
  have c1: "lookupCard ?s' ''k1''
     = Some \<lparr>card_id = ''k1'', col = 2, topRowFrac = 2, heightFrac = 1.5,
             card_text = ''Neue Karte'', color = ''#a8d8ea''\<rparr>"
    using conjunct1[OF t] by (simp add: heldHandleView_simps)
  have c2: "lookupCard ?s' ''k2''
     = Some \<lparr>card_id = ''k2'', col = 4, topRowFrac = 4, heightFrac = 1,
             card_text = ''Neue Karte'', color = ''#a8d8ea''\<rparr>"
    using t ne k2 by simp
  have c3: "cards ?s' = [(''k1'', 0), (''k2'', Suc 0)]" "activeCardId ?s' = Some ''k2''"
    using t by (simp_all add: heldHandleView_simps)
  show ?thesis using h1 h3 h6 g before c1 ne c2 c3 by blast
qed

section \<open>The copy shortcut\<close>

lemma onKeydown_copy:
  assumes "key ev = ''c''" and "ctrlKey ev \<or> metaKey ev"
  shows "onKeydown L newId True ev s = copyActiveCard L newId s"
  using assms
  by (auto simp add: onKeydown_def Let_def copyActiveCard_noop split: option.splits)

lemma lookupCard_alloc:
  assumes "wellFormed s" and "k \<noteq> newId"
  shows "lookupCard (s\<lparr>heap := (heap s)(nextObj s := c), nextObj := Suc (nextObj s),
            cards := AList.update newId (nextObj s) (cards s), activeCardId := a\<rparr>) k
         = lookupCard s k"
proof (cases "map_of (cards s) k")
  case None
  then show ?thesis using assms(2) by (simp add: lookupCard_def AList.update_conv')
next
  case (Some r)
  then have "r \<noteq> nextObj s" using wellFormed_lookup(1)[OF assms(1) Some] by simp
  then show ?thesis using assms(2) Some by (simp add: lookupCard_def AList.update_conv')
qed

text \<open>
  Claim C6. On Ctrl+C or Cmd+C in the attached view, when a card \<open>x\<close> is active, a card
  is stored under the id that \<open>uid()\<close> returned: it has that id, the text, colour,
  \<open>heightFrac\<close> and column of \<open>x\<close>, and \<open>topRowFrac = x.topRowFrac + x.heightFrac + 0.5\<close>;
  it becomes the active card; the keys of the store are the old ones and the new id,
  and in a well-formed store every other card is as before. When no card is active,
  or the active id is not stored, the view does not change.
\<close>

theorem copy_shortcut:
  assumes "key ev = ''c''" and "ctrlKey ev \<or> metaKey ev" and "s' = onKeydown L newId True ev s"
  shows "(\<forall>a x. activeCardId s = Some a \<and> a \<noteq> [] \<and> lookupCard s a = Some x \<longrightarrow>
            lookupCard s' newId
              = Some (x\<lparr>card_id := newId, topRowFrac := topRowFrac x + heightFrac x + 0.5\<rparr>) \<and>
            (\<exists>c. lookupCard s' newId = Some c \<and> card_id c = newId \<and>
                 card_text c = card_text x \<and> color c = color x \<and>
                 heightFrac c = heightFrac x \<and> col c = col x \<and>
                 topRowFrac c = topRowFrac x + heightFrac x + 0.5) \<and>
            activeCardId s' = Some newId \<and>
            fst ` set (cards s') = insert newId (fst ` set (cards s)) \<and>
            (wellFormed s \<longrightarrow> (\<forall>k. k \<noteq> newId \<longrightarrow> lookupCard s' k = lookupCard s k))) \<and>
         (\<not> truthy (activeCardId s) \<longrightarrow> s' = s) \<and>
         (\<forall>a. activeCardId s = Some a \<and> lookupCard s a = None \<longrightarrow> s' = s)"
proof -
  have s': "s' = copyActiveCard L newId s"
    using assms(3) onKeydown_copy[OF assms(1,2)] by simp
  have A: "\<forall>a x. activeCardId s = Some a \<and> a \<noteq> [] \<and> lookupCard s a = Some x \<longrightarrow>
            lookupCard s' newId
              = Some (x\<lparr>card_id := newId, topRowFrac := topRowFrac x + heightFrac x + 0.5\<rparr>) \<and>
            activeCardId s' = Some newId \<and>
            fst ` set (cards s') = insert newId (fst ` set (cards s)) \<and>
            (wellFormed s \<longrightarrow> (\<forall>k. k \<noteq> newId \<longrightarrow> lookupCard s' k = lookupCard s k))"
  proof (intro allI impI)
    fix a x
    assume h: "activeCardId s = Some a \<and> a \<noteq> [] \<and> lookupCard s a = Some x"
    then obtain r where r: "map_of (cards s) a = Some r" "x = heap s r"
      by (auto simp add: lookupCard_def)
    note eq = copyActiveCard_Some[of s a r L newId]
    have 1: "lookupCard s' newId
              = Some (x\<lparr>card_id := newId, topRowFrac := topRowFrac x + heightFrac x + 0.5\<rparr>)"
      using h r by (simp add: s' eq lookupCard_def AList.update_conv')
    have 2: "activeCardId s' = Some newId" using h r by (simp add: s' eq)
    have 3: "fst ` set (cards s') = insert newId (fst ` set (cards s))"
      using h r by (simp add: s' eq AList.dom_update)
    have 4: "wellFormed s \<longrightarrow> (\<forall>k. k \<noteq> newId \<longrightarrow> lookupCard s' k = lookupCard s k)"
      using h r by (simp add: s' eq lookupCard_alloc)
    show "lookupCard s' newId
              = Some (x\<lparr>card_id := newId, topRowFrac := topRowFrac x + heightFrac x + 0.5\<rparr>) \<and>
            activeCardId s' = Some newId \<and>
            fst ` set (cards s') = insert newId (fst ` set (cards s)) \<and>
            (wellFormed s \<longrightarrow> (\<forall>k. k \<noteq> newId \<longrightarrow> lookupCard s' k = lookupCard s k))"
      using 1 2 3 4 by blast
  qed
  have B: "\<not> truthy (activeCardId s) \<longrightarrow> s' = s"
    by (simp add: s' copyActiveCard_noop)
  have C: "\<forall>a. activeCardId s = Some a \<and> lookupCard s a = None \<longrightarrow> s' = s"
    by (auto simp add: s' lookupCard_def copyActiveCard_noop)
  show ?thesis
  proof (intro conjI allI impI)
    fix a x
    assume h: "activeCardId s = Some a \<and> a \<noteq> [] \<and> lookupCard s a = Some x"
    note a = A[rule_format, OF h]
    show "lookupCard s' newId
              = Some (x\<lparr>card_id := newId, topRowFrac := topRowFrac x + heightFrac x + 0.5\<rparr>)"
      using a by blast
    then show "\<exists>c. lookupCard s' newId = Some c \<and> card_id c = newId \<and>
                 card_text c = card_text x \<and> color c = color x \<and>
                 heightFrac c = heightFrac x \<and> col c = col x \<and>
                 topRowFrac c = topRowFrac x + heightFrac x + 0.5"
      by simp
    show "activeCardId s' = Some newId" using a by blast
    show "fst ` set (cards s') = insert newId (fst ` set (cards s))" using a by blast
    show "\<And>k. wellFormed s \<Longrightarrow> k \<noteq> newId \<Longrightarrow> lookupCard s' k = lookupCard s k" using a by blast
  next
    show "\<not> truthy (activeCardId s) \<Longrightarrow> s' = s" using B by blast
    show "\<And>a. activeCardId s = Some a \<and> lookupCard s a = None \<Longrightarrow> s' = s" using C by blast
  qed
qed

lemma twoCardView_simps:
  "activeCardId twoCardView = Some ''k2''"
  "lookupCard twoCardView ''k2'' = Some \<lparr>card_id = ''k2'', col = 4, topRowFrac = 4, heightFrac = 1,
               card_text = ''Neue Karte'', color = ''#a8d8ea''\<rparr>"
  "lookupCard twoCardView ''k1'' = Some \<lparr>card_id = ''k1'', col = 2, topRowFrac = 2, heightFrac = 1,
               card_text = ''Neue Karte'', color = ''#a8d8ea''\<rparr>"
  "wellFormed twoCardView"
  by (simp_all add: twoCardView_eq lookupCard_def wellFormed_def)

theorem copy_shortcut_witness:
  "key ctrlC = ''c'' \<and> (ctrlKey ctrlC \<or> metaKey ctrlC) \<and>
   activeCardId twoCardView = Some ''k2'' \<and> ''k2'' \<noteq> [] \<and> wellFormed twoCardView \<and>
   lookupCard twoCardView ''k2''
     = Some \<lparr>card_id = ''k2'', col = 4, topRowFrac = 4, heightFrac = 1,
             card_text = ''Neue Karte'', color = ''#a8d8ea''\<rparr> \<and>
   lookupCard (onKeydown weekGrid ''k3'' True ctrlC twoCardView) ''k3''
     = Some \<lparr>card_id = ''k3'', col = 4, topRowFrac = 5.5, heightFrac = 1,
             card_text = ''Neue Karte'', color = ''#a8d8ea''\<rparr> \<and>
   activeCardId (onKeydown weekGrid ''k3'' True ctrlC twoCardView) = Some ''k3'' \<and>
   lookupCard (onKeydown weekGrid ''k3'' True ctrlC twoCardView) ''k1'' = lookupCard twoCardView ''k1''"
proof -
  have h1: "key ctrlC = ''c''" and h2: "ctrlKey ctrlC \<or> metaKey ctrlC"
    by (simp_all add: ctrlC_def)
  have h3: "activeCardId twoCardView = Some ''k2'' \<and> ''k2'' \<noteq> [] \<and>
     lookupCard twoCardView ''k2''
     = Some \<lparr>card_id = ''k2'', col = 4, topRowFrac = 4, heightFrac = 1,
             card_text = ''Neue Karte'', color = ''#a8d8ea''\<rparr>"
    by (simp add: twoCardView_simps)
  have h4: "wellFormed twoCardView" by (rule twoCardView_simps)
  note t = copy_shortcut[where L = weekGrid and newId = "''k3''" and s = twoCardView,
      OF h1 h2 refl]
  note u = conjunct1[OF t, rule_format, OF h3]
  have c1: "lookupCard (onKeydown weekGrid ''k3'' True ctrlC twoCardView) ''k3''
     = Some \<lparr>card_id = ''k3'', col = 4, topRowFrac = 5.5, heightFrac = 1,
             card_text = ''Neue Karte'', color = ''#a8d8ea''\<rparr>"
    using u by simp
  have c2: "activeCardId (onKeydown weekGrid ''k3'' True ctrlC twoCardView) = Some ''k3''"
    using u by blast
  have c3: "lookupCard (onKeydown weekGrid ''k3'' True ctrlC twoCardView) ''k1'' = lookupCard twoCardView ''k1''"
    using u h4 by simp
  show ?thesis using h1 h2 h3 h4 c1 c2 c3 by blast
qed

section \<open>The range of topRowFrac\<close>















section \<open>The element after a resize-release\<close>

text \<open>
  Claim C3 at a concrete resize. The card \<open>k1\<close> of \<open>shownView\<close> has \<open>heightFrac = 1\<close> and a
  rendered element 32 pixels high (rows are 40 pixels). Its handle is dragged down by
  24 pixels and released. The release writes \<open>heightFrac = 1.5\<close> to the card and hands
  the mapping to \<open>saveData\<close>, but the grid is not rendered again: the same element stays
  attached, 60 pixels high, while the rectangle that rendering computes for the card is
  52 pixels high, which is what the element built by the next \<open>_renderAllCards\<close> gets.
\<close>

theorem resize_release_leaves_element:
  "lookupCard resizedView ''k1''
     = Some \<lparr>card_id = ''k1'', col = 2, topRowFrac = 2, heightFrac = 1.5,
             card_text = ''Neue Karte'', color = ''#a8d8ea''\<rparr> \<and>
   savedData resizedView
     = [(''k1'', \<lparr>card_id = ''k1'', col = 2, topRowFrac = 2, heightFrac = 1.5,
                  card_text = ''Neue Karte'', color = ''#a8d8ea''\<rparr>)] \<and>
   gridCards resizedView = gridCards shownView \<and> nextEl resizedView = nextEl shownView \<and>
   rect_height (style (elems resizedView 0)) = 60 \<and>
   map_option rect_height (renderCardRect weekGrid (heap resizedView 0)) = Some 52 \<and>
   gridCards (renderAllCards weekGrid resizedView) = [1] \<and>
   rect_height (style (elems (renderAllCards weekGrid resizedView) 1)) = 52"
  by (simp add: resizedView_def handle_gesture_def handle_mousedown_def handle_onMove_def
      handle_onUp_def shownView_eq Let_def lookupCard_def saveCards_def round_def
      renderCardRect_def getCellRect_def renderAllCards_def renderCard_def)

section \<open>Click or drag\<close>

lemma moved_True: "moved g \<Longrightarrow> g\<lparr>moved := True\<rparr> = g"
  by (cases g) simp

lemma dragTo_dragTo [simp]:
  "dragTo (g\<lparr>moved := b\<rparr>) p e s = dragTo g p e s"
  "dragTo g p e (dragTo g q e s) = dragTo g p e s"
  by (simp_all add: dragTo_def)

lemma card_onMove_eq:
  "card_onMove x y e (g, s) =
     (if moved g \<or> farFrom (startX g, startY g) (x, y) then (g\<lparr>moved := True\<rparr>, dragTo g (x, y) e s)
      else (g, s))"
  by (auto simp add: card_onMove_def Let_def farFrom_def dragTo_def moved_True)

lemma card_moves_result:
  "card_moves ps e (g, s) =
     (if moved g \<or> (\<exists>p\<in>set ps. farFrom (startX g, startY g) p)
      then (g\<lparr>moved := True\<rparr>, if ps = [] then s else dragTo g (last ps) e s)
      else (g, s))"
proof (induction ps arbitrary: g s)
  case Nil
  then show ?case by (simp add: moved_True)
next
  case (Cons p ps)
  show ?case
  proof (cases "moved g \<or> farFrom (startX g, startY g) p")
    case True
    then have "card_moves (p # ps) e (g, s) = card_moves ps e (g\<lparr>moved := True\<rparr>, dragTo g p e s)"
      by (simp add: card_onMove_eq)
    also have "\<dots> = (g\<lparr>moved := True\<rparr>, if ps = [] then dragTo g p e s else dragTo g (last ps) e s)"
      by (simp add: Cons.IH)
    finally show ?thesis using True by auto
  next
    case False
    then have "card_moves (p # ps) e (g, s) = card_moves ps e (g, s)"
      by (simp add: card_onMove_eq)
    then show ?thesis using False by (auto simp add: Cons.IH)
  qed
qed

lemma editCard_enters:
  assumes "e \<in> set (gridCards s)" and "dataId (elems s e) = kid"
  shows "\<exists>e'\<in>set (gridCards (editCard kid s)).
           dataId (elems (editCard kid s) e') = kid \<and> contentEditable (elems (editCard kid s) e')"
proof (cases "find (\<lambda>e. dataId (elems s e) = kid) (gridCards s)")
  case None
  then show ?thesis using assms by (auto simp add: find_None_iff)
next
  case (Some e')
  then have "e' \<in> set (gridCards s) \<and> dataId (elems s e') = kid"
    by (auto simp add: find_Some_iff)
  then show ?thesis using Some by (auto simp add: editCard_def)
qed

lemma card_gesture_far:
  assumes "\<exists>p\<in>set ps. farFrom start p"
  shows "card_gesture L start ps e s
     = snapCardToGrid L (card_id (heap s (cardRef (elems s e)))) e (movedTo start (last ps) e s)"
proof -
  define g where "g = \<lparr>startX = fst start, startY = snd start,
                 origTop = rect_top (style (elems s e)),
                 origLeft = rect_left (style (elems s e)), moved = False\<rparr>"
  have down: "card_mousedown Body 0 (fst start) (snd start) e s = Some g"
    by (simp add: card_mousedown_def g_def)
  have st: "(startX g, startY g) = start" by (simp add: g_def)
  have drag: "dragTo g p e s = movedTo start p e s" for p
    by (simp add: dragTo_def movedTo_def g_def)
  have ne: "ps \<noteq> []" using assms by auto
  have "card_moves ps e (g, s) = (g\<lparr>moved := True\<rparr>, movedTo start (last ps) e s)"
    using assms ne by (simp add: card_moves_result st drag)
  then show ?thesis
    by (simp add: card_gesture_def down Let_def card_onUp_def movedTo_def)
qed

lemma card_gesture_near:
  assumes "\<forall>p\<in>set ps. \<not> farFrom start p"
  shows "card_gesture L start ps e s
     = editCard (card_id (heap s (cardRef (elems s e))))
         (s\<lparr>activeCardId := Some (card_id (heap s (cardRef (elems s e))))\<rparr>)"
proof -
  define g where "g = \<lparr>startX = fst start, startY = snd start,
                 origTop = rect_top (style (elems s e)),
                 origLeft = rect_left (style (elems s e)), moved = False\<rparr>"
  have down: "card_mousedown Body 0 (fst start) (snd start) e s = Some g"
    by (simp add: card_mousedown_def g_def)
  have st: "(startX g, startY g) = start" and nm: "\<not> moved g" by (simp_all add: g_def)
  have "card_moves ps e (g, s) = (g, s)"
    using assms nm by (simp add: card_moves_result st)
  then show ?thesis
    using nm by (simp add: card_gesture_def down Let_def card_onUp_def)
qed

text \<open>
  Claim C8, as the code has it. A press on a card body with the primary button starts
  a gesture. If some pointer position reported while the button is held is more than
  3 pixels away from the press position in either axis, the release is a drag-move:
  the element, displaced by the last reported movement, is snapped to the grid.
  Otherwise the release is a click: the card becomes the active card, no card changes,
  and the card's element in the grid becomes editable.
\<close>

theorem card_gesture_click_or_drag:
  assumes "kid = card_id (heap s (cardRef (elems s e)))"
  shows "((\<exists>p\<in>set ps. farFrom start p) \<longrightarrow>
            card_gesture L start ps e s = snapCardToGrid L kid e (movedTo start (last ps) e s)) \<and>
         ((\<forall>p\<in>set ps. \<not> farFrom start p) \<longrightarrow>
            card_gesture L start ps e s = editCard kid (s\<lparr>activeCardId := Some kid\<rparr>) \<and>
            activeCardId (card_gesture L start ps e s) = Some kid \<and>
            lookupCard (card_gesture L start ps e s) = lookupCard s \<and>
            (e \<in> set (gridCards s) \<and> dataId (elems s e) = kid \<longrightarrow>
               (\<exists>e'\<in>set (gridCards (card_gesture L start ps e s)).
                  dataId (elems (card_gesture L start ps e s) e') = kid \<and>
                  contentEditable (elems (card_gesture L start ps e s) e'))))"
proof -
  have A: "card_gesture L start ps e s = snapCardToGrid L kid e (movedTo start (last ps) e s)"
    if "\<exists>p\<in>set ps. farFrom start p"
    using card_gesture_far[OF that] assms by simp
  have B: "card_gesture L start ps e s = editCard kid (s\<lparr>activeCardId := Some kid\<rparr>)"
    if "\<forall>p\<in>set ps. \<not> farFrom start p"
    using card_gesture_near[OF that] assms by simp
  have C: "activeCardId (editCard kid (s\<lparr>activeCardId := Some kid\<rparr>)) = Some kid"
    by (simp add: editCard_def split: option.splits)
  have D: "lookupCard (editCard kid (s\<lparr>activeCardId := Some kid\<rparr>)) = lookupCard s"
    by (auto simp add: editCard_def lookupCard_def fun_eq_iff split: option.splits)
  have E: "\<exists>e'\<in>set (gridCards (editCard kid (s\<lparr>activeCardId := Some kid\<rparr>))).
              dataId (elems (editCard kid (s\<lparr>activeCardId := Some kid\<rparr>)) e') = kid \<and>
              contentEditable (elems (editCard kid (s\<lparr>activeCardId := Some kid\<rparr>)) e')"
    if "e \<in> set (gridCards s) \<and> dataId (elems s e) = kid"
    using that editCard_enters[of e "s\<lparr>activeCardId := Some kid\<rparr>" kid] by simp
  show ?thesis using A B C D E by simp
qed

lemma twoCardView_el [simp]:
  "gridCards twoCardView = [Suc 0, Suc (Suc 0)]"
  "elems twoCardView (Suc 0) = \<lparr>dataId = ''k1'',
               style = \<lparr>rect_left = 185, rect_top = 124, rect_width = 90, rect_height = 32\<rparr>,
               contentEditable = False, cardRef = 0, capRowHeight = 40\<rparr>"
  "heap twoCardView 0 = \<lparr>card_id = ''k1'', col = 2, topRowFrac = 2, heightFrac = 1,
               card_text = ''Neue Karte'', color = ''#a8d8ea''\<rparr>"
  "map_of (cards twoCardView) ''k1'' = Some 0"
  by (simp_all add: twoCardView_eq)

lemma three_pixel_gesture:
  "card_gesture weekGrid (200, 140) [(203, 143)] (Suc 0) twoCardView
     = editCard ''k1'' (twoCardView\<lparr>activeCardId := Some ''k1''\<rparr>)"
  using card_gesture_near[where s = twoCardView and e = "Suc 0" and ps = "[(203, 143)]"
      and start = "(200, 140)" and L = weekGrid]
  by (simp add: farFrom_def)

text \<open>
  Claim C8 as stated fails at exactly 3 pixels. In \<open>twoCardView\<close> card \<open>k2\<close> is active;
  the card \<open>k1\<close> is pressed at (200, 140), the pointer moves by 3 pixels in both axes
  and is released. The handler's test is \<open>> 3\<close>, so this is a click: \<open>k1\<close> becomes
  active and editable and its element stays where it was, which is not what the
  drag-move does.
\<close>

theorem three_pixels_is_a_click:
  "(3::real) \<le> \<bar>203 - 200\<bar> \<and> (3::real) \<le> \<bar>143 - 140\<bar> \<and>
   activeCardId twoCardView = Some ''k2'' \<and>
   activeCardId (card_gesture weekGrid (200, 140) [(203, 143)] (Suc 0) twoCardView) = Some ''k1'' \<and>
   contentEditable (elems (card_gesture weekGrid (200, 140) [(203, 143)] (Suc 0) twoCardView) (Suc 0)) \<and>
   style (elems (card_gesture weekGrid (200, 140) [(203, 143)] (Suc 0) twoCardView) (Suc 0))
     = style (elems twoCardView (Suc 0)) \<and>
   card_gesture weekGrid (200, 140) [(203, 143)] (Suc 0) twoCardView
     \<noteq> snapCardToGrid weekGrid ''k1'' (Suc 0) (movedTo (200, 140) (203, 143) (Suc 0) twoCardView)"
proof -
  let ?s = "card_gesture weekGrid (200, 140) [(203, 143)] (Suc 0) twoCardView"
  have 1: "activeCardId ?s = Some ''k1''" "contentEditable (elems ?s (Suc 0))"
    "style (elems ?s (Suc 0)) = style (elems twoCardView (Suc 0))"
    by (simp_all add: three_pixel_gesture editCard_def)
  have "activeCardId (snapCardToGrid weekGrid ''k1'' (Suc 0)
          (movedTo (200, 140) (203, 143) (Suc 0) twoCardView)) = Some ''k2''"
    by (simp add: snapCardToGrid_Some[of _ _ 0] movedTo_def twoCardView_simps)
  then have 2: "?s \<noteq> snapCardToGrid weekGrid ''k1'' (Suc 0)
          (movedTo (200, 140) (203, 143) (Suc 0) twoCardView)"
    using 1(1) by auto
  show ?thesis using 1 2 by (simp add: twoCardView_simps)
qed

theorem card_gesture_click_or_drag_witness:
  "''k1'' = card_id (heap twoCardView (cardRef (elems twoCardView (Suc 0)))) \<and>
   (\<exists>p\<in>set [(204, 140), (201, 140)]. farFrom (200, 140) p) \<and>
   card_gesture weekGrid (200, 140) [(204, 140), (201, 140)] (Suc 0) twoCardView
     = snapCardToGrid weekGrid ''k1'' (Suc 0) (movedTo (200, 140) (201, 140) (Suc 0) twoCardView) \<and>
   \<not> farFrom (200, 140) (203, 140) \<and> \<not> farFrom (200, 140) (200, 137) \<and>
   Suc 0 \<in> set (gridCards twoCardView) \<and> dataId (elems twoCardView (Suc 0)) = ''k1'' \<and>
   activeCardId (card_gesture weekGrid (200, 140) [(203, 140), (200, 137)] (Suc 0) twoCardView)
     = Some ''k1'' \<and>
   (\<exists>e'\<in>set (gridCards (card_gesture weekGrid (200, 140) [(203, 140), (200, 137)] (Suc 0) twoCardView)).
      dataId (elems (card_gesture weekGrid (200, 140) [(203, 140), (200, 137)] (Suc 0) twoCardView) e') = ''k1'' \<and>
      contentEditable (elems (card_gesture weekGrid (200, 140) [(203, 140), (200, 137)] (Suc 0) twoCardView) e'))"
proof -
  have h1: "''k1'' = card_id (heap twoCardView (cardRef (elems twoCardView (Suc 0))))" by simp
  have h2: "\<exists>p\<in>set [(204, 140), (201, 140)]. farFrom (200, 140) p" by (simp add: farFrom_def)
  have h3: "\<forall>p\<in>set [(203, 140), (200, 137)]. \<not> farFrom (200, 140) p" by (simp add: farFrom_def)
  have h4: "Suc 0 \<in> set (gridCards twoCardView) \<and> dataId (elems twoCardView (Suc 0)) = ''k1''" by simp
  note t1 = card_gesture_click_or_drag[OF h1, where ps = "[(204, 140), (201, 140)]"
      and start = "(200, 140)" and L = weekGrid]
  note t2 = card_gesture_click_or_drag[OF h1, where ps = "[(203, 140), (200, 137)]"
      and start = "(200, 140)" and L = weekGrid]
  have c1: "card_gesture weekGrid (200, 140) [(204, 140), (201, 140)] (Suc 0) twoCardView
     = snapCardToGrid weekGrid ''k1'' (Suc 0) (movedTo (200, 140) (201, 140) (Suc 0) twoCardView)"
    using mp[OF conjunct1[OF t1] h2] by simp
  note u = mp[OF conjunct2[OF t2] h3]
  have c2: "activeCardId (card_gesture weekGrid (200, 140) [(203, 140), (200, 137)] (Suc 0) twoCardView)
     = Some ''k1''"
    using u by blast
  have c3: "\<exists>e'\<in>set (gridCards (card_gesture weekGrid (200, 140) [(203, 140), (200, 137)] (Suc 0) twoCardView)).
      dataId (elems (card_gesture weekGrid (200, 140) [(203, 140), (200, 137)] (Suc 0) twoCardView) e') = ''k1'' \<and>
      contentEditable (elems (card_gesture weekGrid (200, 140) [(203, 140), (200, 137)] (Suc 0) twoCardView) e')"
    using u h4 by blast
  have h3': "\<not> farFrom (200, 140) (203, 140) \<and> \<not> farFrom (200, 140) (200, 137)"
    using h3 by simp
  show ?thesis using h1 h2 h3' h4 c1 c2 c3 by blast
qed

section \<open>Snapping a rendered card again\<close>

lemma evenColumns_width:
  assumes "evenColumns L" and "1 \<le> c" and "c \<le> 5"
  shows "rect_width (cellBox L 1 c) = getColWidth L"
proof -
  have "c \<in> {1..5}" using assms(2,3) by simp
  then have "c = 1 \<or> c = 2 \<or> c = 3 \<or> c = 4 \<or> c = 5" by (simp only: day_cols)
  then show ?thesis using assms(1) by (auto simp add: evenColumns_def)
qed

lemma evenColumns_left_less:
  assumes "evenColumns L" and "1 \<le> c" and "c < d" and "d \<le> 5"
  shows "rect_left (cellBox L 1 c) < rect_left (cellBox L 1 d)"
proof -
  have c: "c = 1 \<or> c = 2 \<or> c = 3 \<or> c = 4" using assms(2,3,4) by arith
  have d: "d = 2 \<or> d = 3 \<or> d = 4 \<or> d = 5" using assms(2,3,4) by arith
  have s: "rect_left (cellBox L 1 1) < rect_left (cellBox L 1 2)"
    "rect_left (cellBox L 1 2) < rect_left (cellBox L 1 3)"
    "rect_left (cellBox L 1 3) < rect_left (cellBox L 1 4)"
    "rect_left (cellBox L 1 4) < rect_left (cellBox L 1 5)"
    using assms(1) by (simp_all add: evenColumns_def)
  from c d assms(3) s show ?thesis
    by (elim disjE) simp_all
qed

lemma evenColumns_left_inj:
  assumes "evenColumns L" and "1 \<le> c" and "c \<le> 5" and "1 \<le> d" and "d \<le> 5"
    and "rect_left (cellBox L 1 c) = rect_left (cellBox L 1 d)"
  shows "c = d"
proof (rule ccontr)
  assume "c \<noteq> d"
  then consider "c < d" | "d < c" by linarith
  then show False
  proof cases
    case 1
    from evenColumns_left_less[OF assms(1,2) 1 assms(5)] assms(6) show False by simp
  next
    case 2
    from evenColumns_left_less[OF assms(1,4) 2 assms(3)] assms(6) show False by simp
  qed
qed

lemma snapHalf_near:
  assumes "real_of_int \<lfloor>t * 2\<rfloor> = t * 2"
  shows "snapHalf (t + 0.1) = t"
proof -
  have "round ((t + 0.1) * 2) = \<lfloor>t * 2\<rfloor>"
  proof (rule round_unique')
    show "\<bar>(t + 0.1) * 2 - real_of_int \<lfloor>t * 2\<rfloor>\<bar> < 1 / 2"
      unfolding assms by simp
  qed
  then show ?thesis by (simp add: snapHalf_def assms)
qed

text \<open>
  Claim C4. On a grid with even day columns, take a stored card that holds snapped
  coordinates and an element whose style is the rectangle rendering computes for it,
  margins included. Snapping that element selects the card's own column and its own
  top offset, and leaves the card as it is.
\<close>

theorem snap_of_rendered_card:
  assumes "evenColumns L" and "onGrid c"
    and "map_of (cards s) k = Some r" and "heap s r = c"
    and "renderCardRect L c = Some (style (elems s e))"
  shows "bestColumn L (elCenterX L (style (elems s e))) = col c \<and>
         max 0 (min 11.5 (snapHalf (rowsFromTop L (style (elems s e)) (col c)))) = topRowFrac c \<and>
         lookupCard (snapCardToGrid L k e s) k = Some c"
proof -
  let ?box = "style (elems s e)"
  let ?cx = "elCenterX L ?box"
  let ?bc = "bestColumn L ?cx"
  note d = renderCardRect_SomeD[OF assms(5)]
  have col: "1 \<le> col c" "col c \<le> 5" and top: "0 \<le> topRowFrac c" "topRowFrac c \<le> 11.5"
    and half: "real_of_int \<lfloor>topRowFrac c * 2\<rfloor> = topRowFrac c * 2"
    using assms(2) by (simp_all add: onGrid_def)
  have cx: "?cx = rect_left (cellBox L 1 (col c)) + getColWidth L / 2"
    using d(5,6) by (simp add: elCenterX_def)
  have dist: "colDist L ?cx a = \<bar>rect_left (cellBox L 1 a) - rect_left (cellBox L 1 (col c))\<bar>"
    if "1 \<le> a" "a \<le> 5" for a
    using evenColumns_width[OF assms(1) that] by (simp add: colDist_def cx)
  note best = bestColumn_closest[of L ?cx]
  have bc: "1 \<le> ?bc" "?bc \<le> 5" using best by blast+
  have "colDist L ?cx ?bc \<le> colDist L ?cx (col c)" using best col by simp
  then have "rect_left (cellBox L 1 ?bc) = rect_left (cellBox L 1 (col c))"
    by (simp add: dist[OF bc] dist[OF col])
  then have 1: "?bc = col c"
    by (rule evenColumns_left_inj[OF assms(1) bc col])
  have rh: "getRowHeight L \<noteq> 0" by (rule d(2))
  have "rowsFromTop L ?box (col c) = topRowFrac c + 0.1"
    using d(8) rh by (simp add: rowsFromTop_def field_simps)
  then have "snapHalf (rowsFromTop L ?box (col c)) = topRowFrac c"
    using snapHalf_near[OF half] by simp
  then have 2: "max 0 (min 11.5 (snapHalf (rowsFromTop L ?box (col c)))) = topRowFrac c"
    using top by simp
  have 3: "lookupCard (snapCardToGrid L k e s) k = Some c"
    unfolding snapCardToGrid_Some[OF assms(3)] 1 2
    by (simp add: lookupCard_def assms(3) assms(4))
  show ?thesis using 1 2 3 by blast
qed

theorem snap_of_rendered_card_witness:
  "evenColumns weekGrid \<and> onGrid (heap twoCardView 0) \<and>
   map_of (cards twoCardView) ''k1'' = Some 0 \<and>
   renderCardRect weekGrid (heap twoCardView 0) = Some (style (elems twoCardView (Suc 0))) \<and>
   bestColumn weekGrid (elCenterX weekGrid (style (elems twoCardView (Suc 0)))) = 2 \<and>
   lookupCard (snapCardToGrid weekGrid ''k1'' (Suc 0) twoCardView) ''k1''
     = lookupCard twoCardView ''k1''"
proof -
  have h1: "evenColumns weekGrid" by (simp add: evenColumns_def)
  have h2: "onGrid (heap twoCardView 0)" by (simp add: onGrid_def)
  have h3: "map_of (cards twoCardView) ''k1'' = Some 0" by simp
  have h5: "renderCardRect weekGrid (heap twoCardView 0) = Some (style (elems twoCardView (Suc 0)))"
    by (simp add: renderCardRect_def getCellRect_def)
  note t = snap_of_rendered_card[OF h1 h2 h3 refl h5]
  have c1: "bestColumn weekGrid (elCenterX weekGrid (style (elems twoCardView (Suc 0)))) = 2"
    using t by simp
  have c2: "lookupCard (snapCardToGrid weekGrid ''k1'' (Suc 0) twoCardView) ''k1''
     = lookupCard twoCardView ''k1''"
    using t by (simp add: lookupCard_def)
  show ?thesis using h1 h2 h3 h5 c1 c2 by blast
qed

end
